theory Spec2Isabelle
  imports Complex_Main "HOL-Library.Sublist" "HOL-Library.AList"
begin

section \<open>Python values and built-ins used by the sources\<close>

text \<open>
  Exceptions of the Python sources are values: a function that may raise returns
  \<open>error + 'a\<close>, with \<open>Inl\<close> for the exception.
\<close>

datatype error =
    ValueError
  | IndexError
  | KeyError
  | TypeError
  | NameError
  | AttributeError
  | AssertionError string

definition and_then :: "error + 'a \<Rightarrow> ('a \<Rightarrow> error + 'b) \<Rightarrow> error + 'b" where
  "and_then r f = (case r of Inl e \<Rightarrow> Inl e | Inr x \<Rightarrow> f x)"

subsection \<open>Characters\<close>

definition is_digit :: "char \<Rightarrow> bool" where
  "is_digit c = (c \<in> set ''0123456789'')"

definition digit_val :: "char \<Rightarrow> nat" where
  "digit_val c = of_char c - 48"

definition digit_char :: "nat \<Rightarrow> char" where
  "digit_char d = ''0123456789'' ! d"

text \<open>
  A string is a list of code points below 256. The characters \<open>str.strip()\<close>, \<open>int\<close> and
  \<open>float\<close> drop as whitespace are, among those: tab, line feed, vertical tab, form feed,
  carriage return, the four separators \<open>0x1C\<close> to \<open>0x1F\<close>, space, next line (\<open>0x85\<close>) and
  no-break space (\<open>0xA0\<close>).
\<close>

definition is_space :: "char \<Rightarrow> bool" where
  "is_space c =
     (c \<in> set [CHR 0x09, CHR 0x0A, CHR 0x0B, CHR 0x0C, CHR 0x0D, CHR 0x1C, CHR 0x1D, CHR 0x1E,
               CHR 0x1F, CHR 0x20, CHR 0x85, CHR 0xA0])"

definition py_strip :: "string \<Rightarrow> string" where
  "py_strip s = rev (dropWhile is_space (rev (dropWhile is_space s)))"

subsection \<open>\<open>str.replace\<close> and \<open>str.split\<close>\<close>

text \<open>
  \<open>s.replace(old, new)\<close> rewrites the non-overlapping occurrences of \<open>old\<close> from left to
  right; with an empty \<open>old\<close> it puts \<open>new\<close> before every character and at the end.
\<close>

function py_replace_from :: "string \<Rightarrow> string \<Rightarrow> string \<Rightarrow> string" where
  "py_replace_from old new [] = []"
| "py_replace_from old new (c # cs) =
     (if old \<noteq> [] \<and> prefix old (c # cs)
      then new @ py_replace_from old new (drop (length old) (c # cs))
      else c # py_replace_from old new cs)"
  by pat_completeness auto
termination
  by (relation "measure (\<lambda>(old, new, s). length s)") auto

definition py_replace :: "string \<Rightarrow> string \<Rightarrow> string \<Rightarrow> string" where
  "py_replace old new s =
     (if old = [] then new @ concat (map (\<lambda>c. c # new) s) else py_replace_from old new s)"

text \<open>
  \<open>s.split(sep)\<close> cuts at the non-overlapping occurrences of \<open>sep\<close> from left to right and
  raises ValueError on an empty separator. \<open>cur\<close> is the field being read.
\<close>

function py_split_from :: "string \<Rightarrow> string \<Rightarrow> string \<Rightarrow> string list" where
  "py_split_from sep cur [] = [cur]"
| "py_split_from sep cur (c # cs) =
     (if sep \<noteq> [] \<and> prefix sep (c # cs)
      then cur # py_split_from sep [] (drop (length sep) (c # cs))
      else py_split_from sep (cur @ [c]) cs)"
  by pat_completeness auto
termination
  by (relation "measure (\<lambda>(sep, cur, s). length s)") auto

definition py_split :: "string \<Rightarrow> string \<Rightarrow> error + string list" where
  "py_split sep s = (if sep = [] then Inl ValueError else Inr (py_split_from sep [] s))"

subsection \<open>Indexing\<close>

text \<open>\<open>xs[i]\<close> for a non-negative index: IndexError out of range.\<close>

definition py_index :: "'a list \<Rightarrow> nat \<Rightarrow> error + 'a" where
  "py_index xs i = (if i < length xs then Inr (xs ! i) else Inl IndexError)"

text \<open>\<open>xs[a:b]\<close> and \<open>xs[a:]\<close> for non-negative bounds never raise.\<close>

definition py_slice :: "nat \<Rightarrow> nat \<Rightarrow> 'a list \<Rightarrow> 'a list" where
  "py_slice a b xs = drop a (take b xs)"

subsection \<open>\<open>int(s)\<close> and \<open>str(n)\<close>\<close>

definition digits_value :: "string \<Rightarrow> nat" where
  "digits_value s = foldl (\<lambda>a c. 10 * a + digit_val c) 0 s"

definition parse_digits :: "string \<Rightarrow> nat option" where
  "parse_digits s = (if s \<noteq> [] \<and> list_all is_digit s then Some (digits_value s) else None)"

text \<open>
  Digit grouping: in the argument of \<open>int\<close> and \<open>float\<close> an underscore may stand between
  two digits. \<open>underscores_ok prev s\<close> checks it, \<open>prev\<close> telling whether the character
  before \<open>s\<close> is a digit, and \<open>degroup\<close> removes the underscores of a well-grouped string.
\<close>

fun underscores_ok :: "bool \<Rightarrow> string \<Rightarrow> bool" where
  "underscores_ok prev [] = True"
| "underscores_ok prev (c # cs) =
     (if c = CHR ''_''
      then prev \<and> (case cs of [] \<Rightarrow> False | d # ds \<Rightarrow> is_digit d) \<and> underscores_ok False cs
      else underscores_ok (is_digit c) cs)"

definition degroup :: "string \<Rightarrow> string option" where
  "degroup s = (if underscores_ok False s then Some (filter (\<lambda>c. c \<noteq> CHR ''_'') s) else None)"

definition parse_grouped_digits :: "string \<Rightarrow> nat option" where
  "parse_grouped_digits s = (case degroup s of None \<Rightarrow> None | Some t \<Rightarrow> parse_digits t)"

text \<open>
  \<open>int(s)\<close> on a string, as Python 3 reads it: surrounding whitespace is dropped, one
  sign is allowed, the rest must be decimal digits, grouped by underscores or not;
  anything else raises ValueError.
\<close>

definition py_int :: "string \<Rightarrow> error + int" where
  "py_int s =
     (case py_strip s of
        [] \<Rightarrow> Inl ValueError
      | c # cs \<Rightarrow>
          if c = CHR ''-'' then
            (case parse_grouped_digits cs of
               None \<Rightarrow> Inl ValueError | Some n \<Rightarrow> Inr (- int n))
          else if c = CHR ''+'' then
            (case parse_grouped_digits cs of
               None \<Rightarrow> Inl ValueError | Some n \<Rightarrow> Inr (int n))
          else
            (case parse_grouped_digits (c # cs) of
               None \<Rightarrow> Inl ValueError | Some n \<Rightarrow> Inr (int n)))"

function str_nat :: "nat \<Rightarrow> string" where
  "str_nat n = (if n < 10 then [digit_char n] else str_nat (n div 10) @ [digit_char (n mod 10)])"
  by pat_completeness auto
termination
  by (relation "measure (\<lambda>n. n)") auto

definition py_str :: "int \<Rightarrow> string" where
  "py_str i = (if i < 0 then CHR ''-'' # str_nat (nat (- i)) else str_nat (nat i))"

subsection \<open>\<open>str.lower\<close>, \<open>in\<close>, \<open>list.index\<close> and string comparison\<close>

definition py_lower :: "string \<Rightarrow> string" where
  "py_lower s =
     map (\<lambda>c. if (65::nat) \<le> of_char c \<and> of_char c \<le> (90::nat)
              then char_of (of_char c + (32::nat)) else c) s"

text \<open>\<open>sub in s\<close> for strings: \<open>sub\<close> occurs in \<open>s\<close> as a contiguous substring.\<close>

fun py_contains :: "string \<Rightarrow> string \<Rightarrow> bool" where
  "py_contains sub [] = (sub = [])"
| "py_contains sub (c # cs) = (prefix sub (c # cs) \<or> py_contains sub cs)"

text \<open>\<open>xs.index(x)\<close>, called in the sources only under the guard \<open>x in xs\<close>.\<close>

fun index_of :: "'a list \<Rightarrow> 'a \<Rightarrow> nat" where
  "index_of [] x = 0"
| "index_of (y # ys) x = (if x = y then 0 else Suc (index_of ys x))"

text \<open>\<open>a <= b\<close> on strings: lexicographic by code point.\<close>

fun py_str_le :: "string \<Rightarrow> string \<Rightarrow> bool" where
  "py_str_le [] ys = True"
| "py_str_le (x # xs) [] = False"
| "py_str_le (x # xs) (y # ys) =
     ((of_char x :: nat) < of_char y \<or> (x = y \<and> py_str_le xs ys))"

subsection \<open>\<open>float(s)\<close>\<close>

text \<open>
  Doubles are not built here. \<open>float(s)\<close> returns the double nearest to the number the
  literal \<open>s\<close> denotes (an infinity when that number is too large, a zero when it is too
  small), or the infinity or the not-a-number that \<open>s\<close> names. The type \<open>'f\<close> of doubles
  and these three operations are parameters: \<open>nearest neg q\<close> is the double nearest to
  the rational \<open>q \<ge> 0\<close>, negated when \<open>neg\<close>; \<open>infinity neg\<close> and \<open>not_a_number neg\<close> are
  the special values with their sign. Every statement about \<open>float\<close> below holds for all
  of them.
\<close>

record 'f float_ops =
  nearest :: "bool \<Rightarrow> rat \<Rightarrow> 'f"
  infinity :: "bool \<Rightarrow> 'f"
  not_a_number :: "bool \<Rightarrow> 'f"

definition split_at_first :: "(char \<Rightarrow> bool) \<Rightarrow> string \<Rightarrow> string \<times> string option" where
  "split_at_first P s =
     (case dropWhile (\<lambda>c. \<not> P c) s of
        [] \<Rightarrow> (s, None)
      | c # rest \<Rightarrow> (takeWhile (\<lambda>c. \<not> P c) s, Some rest))"

text \<open>
  The mantissa \<open>digits\<close>, \<open>digits.\<close>, \<open>.digits\<close> or \<open>digits.digits\<close>, and the exponent, an
  optionally signed run of digits.
\<close>

definition parse_mantissa :: "string \<Rightarrow> rat option" where
  "parse_mantissa m =
     (case split_at_first (\<lambda>c. c = CHR ''.'') m of
        (ip, None) \<Rightarrow> map_option of_nat (parse_digits ip)
      | (ip, Some fp) \<Rightarrow>
          if (ip = [] \<and> fp = []) \<or> \<not> list_all is_digit ip \<or> \<not> list_all is_digit fp then None
          else Some (of_nat (digits_value ip) + of_nat (digits_value fp) / 10 ^ length fp))"

definition parse_exponent :: "string \<Rightarrow> int option" where
  "parse_exponent ex =
     (case ex of
        [] \<Rightarrow> None
      | c # cs \<Rightarrow>
          if c = CHR ''-'' then map_option (\<lambda>n. - int n) (parse_digits cs)
          else if c = CHR ''+'' then map_option int (parse_digits cs)
          else map_option int (parse_digits (c # cs)))"

definition pow10 :: "int \<Rightarrow> rat" where
  "pow10 k = (if 0 \<le> k then 10 ^ nat k else 1 / 10 ^ nat (- k))"

text \<open>The number an unsigned decimal literal denotes, exactly.\<close>

definition parse_decimal :: "string \<Rightarrow> rat option" where
  "parse_decimal u =
     (case split_at_first (\<lambda>c. c = CHR ''e'' \<or> c = CHR ''E'') u of
        (m, None) \<Rightarrow> parse_mantissa m
      | (m, Some ex) \<Rightarrow>
          (case parse_mantissa m of
             None \<Rightarrow> None
           | Some q \<Rightarrow>
               (case parse_exponent ex of None \<Rightarrow> None | Some k \<Rightarrow> Some (q * pow10 k))))"

text \<open>
  \<open>float(s)\<close> on a string, as Python 3 reads it: surrounding whitespace is dropped, one
  sign is allowed, then \<open>inf\<close>, \<open>infinity\<close> or \<open>nan\<close> in any case, or a decimal literal
  with its digits grouped by underscores or not; anything else raises ValueError.
\<close>

definition py_float :: "'f float_ops \<Rightarrow> string \<Rightarrow> error + 'f" where
  "py_float ops s =
     (let t = py_strip s;
          (neg, u) = (case t of
                        [] \<Rightarrow> (False, [])
                      | c # cs \<Rightarrow> if c = CHR ''-'' then (True, cs)
                                else if c = CHR ''+'' then (False, cs) else (False, t))
      in if py_lower u = ''inf'' \<or> py_lower u = ''infinity'' then Inr (infinity ops neg)
         else if py_lower u = ''nan'' then Inr (not_a_number ops neg)
         else
           (case degroup u of
              None \<Rightarrow> Inl ValueError
            | Some v \<Rightarrow>
                (case parse_decimal v of
                   None \<Rightarrow> Inl ValueError
                 | Some q \<Rightarrow> Inr (nearest ops neg q))))"

text \<open>
  An instance for examples: a double is written by the way it is named, never computed.
\<close>

datatype named_double = Nearest bool rat | Infinity bool | NotANumber bool

definition named_doubles :: "named_double float_ops" where
  "named_doubles = \<lparr>nearest = Nearest, infinity = Infinity, not_a_number = NotANumber\<rparr>"

section \<open>desktop.py: version keys\<close>

text \<open>
  The body of the loop of \<open>Desktop.version_keys\<close>: the key derived from one name of the
  installed-version scan. \<open>"20{0}.{1}".format(version, release)\<close> is the concatenation
  below.
\<close>

definition version_key :: "string \<Rightarrow> error + string" where
  "version_key version_env_var =
     (let current_version_id = py_replace ''ANSYSEM_ROOT'' '''' version_env_var in
      and_then (py_int (py_slice 0 2 current_version_id)) (\<lambda>version.
      and_then (py_index current_version_id 2) (\<lambda>c.
      and_then (py_int [c]) (\<lambda>release.
        let (version, release) =
              (if version < 20
               then (if release < 3 then (version - 1, release) else (version, release - 2))
               else (version, release))
        in Inr (''20'' @ py_str version @ ''.'' @ py_str release)))))"

text \<open>
  \<open>Desktop.version_keys\<close>: the loop over the installed list (\<open>list_installed_ansysem()\<close>,
  a parameter here) fills \<open>_version_keys\<close> and the dictionary \<open>_version_ids\<close>, and
  returns the keys. The model returns both.
\<close>

fun version_keys_loop ::
  "string list \<Rightarrow> string list \<times> (string \<times> string) list
     \<Rightarrow> error + (string list \<times> (string \<times> string) list)" where
  "version_keys_loop [] acc = Inr acc"
| "version_keys_loop (version_env_var # rest) (keys, ids) =
     and_then (version_key version_env_var) (\<lambda>v_key.
       version_keys_loop rest (keys @ [v_key], AList.update v_key version_env_var ids))"

definition version_keys :: "string list \<Rightarrow> error + (string list \<times> (string \<times> string) list)" where
  "version_keys version_list = version_keys_loop version_list ([], [])"

definition current_version :: "string list \<Rightarrow> error + string" where
  "current_version version_list =
     and_then (version_keys version_list) (\<lambda>(keys, ids). py_index keys 0)"

text \<open>\<open>get_version_env_variable(version_id)\<close>.\<close>

definition get_version_env_variable :: "string \<Rightarrow> error + string" where
  "get_version_env_variable version_id =
     and_then (py_split ''.'' version_id) (\<lambda>values.
     and_then (py_index values 0) (\<lambda>v0.
     and_then (py_int (drop 2 v0)) (\<lambda>version.
     and_then (py_index values 1) (\<lambda>v1.
     and_then (py_int v1) (\<lambda>release.
       let (version, release) =
             (if version < 20
              then (if release < 3 then (version + 1, release) else (version, release + 2))
              else (version, release))
       in Inr (''ANSYSEM_ROOT'' @ py_str version @ py_str release))))))"

text \<open>
  The names the claims speak of: \<open>ANSYSEM_ROOT<VV><R>\<close> for a two-digit number \<open>VV\<close>
  and a digit \<open>R\<close>, and the key the specification gives for it.
\<close>

definition env_name :: "int \<Rightarrow> int \<Rightarrow> string" where
  "env_name vv r = ''ANSYSEM_ROOT'' @ py_str vv @ py_str r"

definition spec_version_key :: "int \<Rightarrow> int \<Rightarrow> string" where
  "spec_version_key vv r =
     (if vv \<ge> 20 then ''20'' @ py_str vv @ ''.'' @ py_str r
      else if r < 3 then ''20'' @ py_str (vv - 1) @ ''.'' @ py_str r
      else ''20'' @ py_str vv @ ''.'' @ py_str (r - 2))"

section \<open>desktop.py: releasing and closing the desktop\<close>

text \<open>
  \<open>_com\<close>, the COM module chosen when \<open>desktop.py\<close> is imported.
\<close>

datatype com_module = Pythonnet | Pythonnet_v3 | Pywin32

text \<open>
  The calls the functions make on the vendor process, the interpreter's main module and
  the operating system, in the order they are made. \<open>Kill pid\<close> is the call
  \<open>os.kill(pid, 9)\<close>, whether it succeeds or raises.
\<close>

datatype event =
    CloseProject string
  | ReleaseCOMObjectScope int
  | GetProcessID
  | Kill int
  | DelDesktop
  | DelInitialized
  | InfoMessage string
  | ErrorMessage string
  | LoggerError string
  | LoggerWarning string
  | CreateObjectNew bool
  | CreateObject string
  | Dispatch string
  | DispatchRunning string
  | RestoreWindow

text \<open>
  What the functions read from outside: the desktop handle \<open>Module.oDesktop\<close> of the
  main module (its \<open>ScopeID\<close>, \<open>GetProcessID()\<close> and \<open>GetProjectList()\<close>), whether the
  main module has the attribute \<open>pyaedt_initialized\<close>, and whether \<open>os.kill\<close> succeeds.
  The COM calls themselves are taken to return normally.
\<close>

record world =
  ScopeID :: int
  ProcessID :: int
  ProjectList :: "string list"
  pyaedt_initialized :: bool
  kill_succeeds :: bool

text \<open>The loop \<open>while i <= scopeID: ReleaseCOMObjectScope(PInvokeProxyAPI, i); i += 1\<close>.\<close>

function release_scopes :: "int \<Rightarrow> int \<Rightarrow> event list" where
  "release_scopes i scopeID =
     (if i \<le> scopeID then ReleaseCOMObjectScope i # release_scopes (i + 1) scopeID else [])"
  by pat_completeness auto
termination
  by (relation "measure (\<lambda>(i, scopeID). nat (scopeID + 1 - i))") auto

text \<open>The loop \<open>while i <= scopeID: ReleaseCOMObjectScope(PInvokeProxyAPI, 0); i += 1\<close>.\<close>

function release_scope_zero :: "int \<Rightarrow> int \<Rightarrow> event list" where
  "release_scope_zero i scopeID =
     (if i \<le> scopeID then ReleaseCOMObjectScope 0 # release_scope_zero (i + 1) scopeID else [])"
  by pat_completeness auto
termination
  by (relation "measure (\<lambda>(i, scopeID). nat (scopeID + 1 - i))") auto

definition close_all_projects :: "world \<Rightarrow> event list" where
  "close_all_projects w = map CloseProject (ProjectList w)"

text \<open>
  \<open>release_desktop(close_projects, close_desktop)\<close>: the calls made and the value
  returned (\<open>None\<close> for Python's \<open>None\<close>). \<open>del Module.oDesktop\<close> cannot raise here, the
  attribute having been read at the start of the branch.
\<close>

definition release_desktop ::
  "com_module \<Rightarrow> bool \<Rightarrow> bool \<Rightarrow> world \<Rightarrow> event list \<times> bool option" where
  "release_desktop com close_projects close_desktop w =
     (if com = Pythonnet then
        ((if close_projects then close_all_projects w else [])
           @ release_scopes 0 (ScopeID w)
           @ [DelDesktop],
         None)
      else if com = Pythonnet_v3 then
        (let closed = (if close_projects then close_all_projects w else []) in
         if close_desktop then
           (let released = release_scope_zero 0 5;
                pid = ProcessID w
            in if kill_succeeds w
               then (closed @ released @ [GetProcessID, Kill pid, DelDesktop], Some True)
               else (closed @ released
                       @ [GetProcessID, Kill pid,
                          ErrorMessage ''something went wrong in Closing AEDT''],
                     Some False))
         else
           (closed @ release_scopes 0 5 @ [DelDesktop]
              @ (if pyaedt_initialized w then [DelInitialized] else []),
            None))
      else ([], None))"

text \<open>
  The release loop of \<open>force_close_desktop\<close> reads the local variable \<open>i\<close>, which the
  function assigns only inside the loop: \<open>None\<close> is the unbound variable, and reading
  it raises NameError before any call is made.
\<close>

definition release_scope_zero_local :: "int option \<Rightarrow> int \<Rightarrow> error + event list" where
  "release_scope_zero_local i scopeID =
     (case i of None \<Rightarrow> Inl NameError | Some j \<Rightarrow> Inr (release_scope_zero j scopeID))"

text \<open>
  \<open>force_close_desktop()\<close>. The handlers of the module's logger, closed on both ways
  out, are not part of the model.
\<close>

definition force_close_desktop :: "world \<Rightarrow> event list \<times> bool option" where
  "force_close_desktop w =
     (let pid = ProcessID w in
      if pid > 0 then
        (let closed = close_all_projects w;
             released = (case release_scope_zero_local None 5 of
                           Inl e \<Rightarrow> [LoggerError ''No COM UTIL. Closing the Desktop....'']
                         | Inr evs \<Rightarrow> evs);
             uninit = (if pyaedt_initialized w then [DelInitialized] else [])
         in if kill_succeeds w
            then (GetProcessID # closed @ released @ uninit @ [Kill pid, DelDesktop], Some True)
            else (GetProcessID # closed @ released @ uninit
                    @ [Kill pid, ErrorMessage ''something went wrong in Closing AEDT''],
                  Some False))
      else ([GetProcessID], None))"

section \<open>desktop.py: \<open>Desktop.__init__\<close>\<close>

text \<open>
  What \<open>Desktop.__init__\<close> reads from outside: whether the main module already holds a
  desktop handle, the installed-version scan, the COM module, the process ids of the
  vendor executable that \<open>tasklist\<close> reports before and after the application object is
  created (empty off Windows), and whether the running object table holds a moniker of
  the new process.
\<close>

record init_env =
  has_oDesktop :: bool
  installed :: "string list"
  com :: com_module
  processID :: "string list"
  processID2 :: "string list"
  moniker_found :: bool

text \<open>
  The connection to the vendor process for the chosen \<open>version_key\<close> (\<open>vkey\<close> below): the calls made,
  and whether \<open>_main.oDesktop\<close> is set afterwards.
\<close>

definition connect :: "init_env \<Rightarrow> string \<Rightarrow> bool \<Rightarrow> bool \<Rightarrow> event list \<times> bool" where
  "connect env vkey NG AlwaysNew =
     (let version = ''Ansoft.ElectronicsDesktop.'' @ vkey in
      if com env = Pythonnet then
        (if NG \<or> AlwaysNew then ([CreateObjectNew NG], True) else ([CreateObject version], True))
      else if com env = Pythonnet_v3 then
        (let app = (if NG \<or> AlwaysNew \<or> processID env = []
                    then [CreateObjectNew NG] else [CreateObject version]);
             proc = filter (\<lambda>i. i \<notin> set (processID env)) (processID2 env)
         in if proc = [] then (app @ [Dispatch version], True)
            else if py_str_le ''2021.1'' vkey then
              (if moniker_found env then (app @ [DispatchRunning (hd proc)], True)
               else (app, False))
            else (app @ [LoggerWarning
                           ''PyAEDT is not supported in AEDT versions older than 2021.1.'',
                         Dispatch version], True))
      else ([Dispatch version], True))"

text \<open>
  \<open>Desktop.__init__(specified_version, NG, AlwaysNew)\<close> up to the connection: the calls
  made and the exception raised, if any. \<open>if specified_version:\<close> is Python's truth
  test, false for \<open>None\<close> and for the empty string. The log file and the messages
  written after the connection are not part of the model.
\<close>

definition choose_version ::
  "init_env \<Rightarrow> string option \<Rightarrow> error + (string \<times> (string \<times> string) list)" where
  "choose_version env specified_version =
     (let latest = and_then (version_keys (installed env)) (\<lambda>(keys, ids).
                     and_then (py_index keys 0) (\<lambda>k. Inr (k, ids)))
      in case specified_version of
           None \<Rightarrow> latest
         | Some v \<Rightarrow>
             if v \<noteq> [] then
               and_then (version_keys (installed env)) (\<lambda>(keys, ids).
                 if v \<in> set keys then Inr (v, ids)
                 else Inl (AssertionError (''Specified version '' @ v @ '' not known.'')))
             else latest)"

definition Desktop_init ::
  "init_env \<Rightarrow> string option \<Rightarrow> bool \<Rightarrow> bool \<Rightarrow> event list \<times> error option" where
  "Desktop_init env specified_version NG AlwaysNew =
     (if has_oDesktop env then ([RestoreWindow], None)
      else
        (case choose_version env specified_version of
           Inl e \<Rightarrow> ([], Some e)
         | Inr (vkey, ids) \<Rightarrow>
             (case map_of ids vkey of
                None \<Rightarrow> ([], Some KeyError)
              | Some env_var \<Rightarrow>
                  (let (calls, connected) = connect env vkey NG AlwaysNew in
                   if connected then (calls @ [RestoreWindow], None)
                   else (calls, Some AttributeError)))))"

section \<open>edb\_core/components.py\<close>

subsection \<open>\<open>resistor_value_parser\<close>\<close>

text \<open>The argument is a string or a double; \<open>float\<close> of a double is that double.\<close>

datatype 'f py_value = PyStr string | PyFloat 'f

definition resistor_value_parser :: "'f float_ops \<Rightarrow> 'f py_value \<Rightarrow> error + 'f" where
  "resistor_value_parser ops RValue =
     (case RValue of
        PyStr s \<Rightarrow>
          (let r1 = py_replace '' '' '''' s;
               r2 = py_replace ''meg'' ''m'' r1;
               r3 = py_replace ''Ohm'' '''' r2;
               r4 = py_replace ''ohm'' '''' r3;
               r5 = py_replace ''k'' ''e3'' r4;
               r6 = py_replace ''m'' ''e-3'' r5;
               r7 = py_replace ''M'' ''e6'' r6
           in py_float ops r7)
      | PyFloat x \<Rightarrow> Inr x)"

text \<open>
  The parser as the specification words it: spaces and \<open>Ohm\<close>/\<open>ohm\<close> are removed first,
  then the rewrites run in the order \<open>meg\<close>, \<open>k\<close>, \<open>m\<close>, \<open>M\<close>.
\<close>

definition resistor_value_parser_spec :: "'f float_ops \<Rightarrow> 'f py_value \<Rightarrow> error + 'f" where
  "resistor_value_parser_spec ops RValue =
     (case RValue of
        PyStr s \<Rightarrow>
          (let r1 = py_replace '' '' '''' s;
               r2 = py_replace ''Ohm'' '''' r1;
               r3 = py_replace ''ohm'' '''' r2;
               r4 = py_replace ''meg'' ''m'' r3;
               r5 = py_replace ''k'' ''e3'' r4;
               r6 = py_replace ''m'' ''e-3'' r5;
               r7 = py_replace ''M'' ''e6'' r6
           in py_float ops r7)
      | PyFloat x \<Rightarrow> Inr x)"

subsection \<open>The component cache\<close>

text \<open>
  One component of the layout as \<open>EDBComponent\<close> shows it: its reference designator,
  its type and its number of pins.
\<close>

record component =
  RefDes :: string
  type :: string
  numpins :: int

text \<open>
  The state of a \<open>Components\<close> object: the dictionaries \<open>_cmp\<close>, \<open>_res\<close>, \<open>_cap\<close>,
  \<open>_ind\<close>, \<open>_ics\<close>, \<open>_ios\<close> and \<open>_others\<close> (association lists in insertion order),
  and the outside: the components of the layout behind the COM interface, whether
  listing them raises, the number of times \<open>get_component_list\<close> has queried the layout,
  and the messages written.
\<close>

record components_state =
  cmp :: "(string \<times> component) list"
  res :: "(string \<times> component) list"
  cap :: "(string \<times> component) list"
  ind :: "(string \<times> component) list"
  ics :: "(string \<times> component) list"
  ios :: "(string \<times> component) list"
  others :: "(string \<times> component) list"
  layout :: "component list"
  layout_raises :: bool
  queries :: nat
  messages :: "string list"

text \<open>
  \<open>refresh_components\<close>: \<open>get_component_list()\<close> queries the layout and the cache is
  rebuilt from its result, one entry per component under its \<open>RefDes\<close>; when the query
  raises, the \<open>except: pass\<close> leaves the cache as it is.
\<close>

definition refresh_components :: "components_state \<Rightarrow> components_state" where
  "refresh_components st =
     (let st1 = st\<lparr>queries := queries st + 1\<rparr> in
      if layout_raises st then st1
      else st1\<lparr>cmp := fold (\<lambda>c d. AList.update (RefDes c) c d) (layout st) []\<rparr>)"

text \<open>The property \<open>components\<close>: the dictionary read, and the state after the read.\<close>

definition components ::
  "components_state \<Rightarrow> (string \<times> component) list \<times> components_state" where
  "components st =
     (if cmp st = [] then (let st1 = refresh_components st in (cmp st1, st1))
      else (cmp st, st))"

text \<open>
  The loop shared by the properties \<open>resistors\<close>, \<open>capacitors\<close>, \<open>inductors\<close>, \<open>ICs\<close>,
  \<open>IOs\<close> and \<open>Others\<close>: a new dictionary of the items whose type is the given one.
\<close>

definition type_view :: "string \<Rightarrow> (string \<times> component) list \<Rightarrow> (string \<times> component) list" where
  "type_view ty items =
     fold (\<lambda>(el, val) d. if type val = ty then AList.update el val d else d) items []"

definition resistors ::
  "components_state \<Rightarrow> (string \<times> component) list \<times> components_state" where
  "resistors st =
     (let (items, st1) = components st; d = type_view ''Resistor'' items
      in (d, st1\<lparr>res := d\<rparr>))"

definition capacitors ::
  "components_state \<Rightarrow> (string \<times> component) list \<times> components_state" where
  "capacitors st =
     (let (items, st1) = components st; d = type_view ''Capacitor'' items
      in (d, st1\<lparr>cap := d\<rparr>))"

definition inductors ::
  "components_state \<Rightarrow> (string \<times> component) list \<times> components_state" where
  "inductors st =
     (let (items, st1) = components st; d = type_view ''Inductor'' items
      in (d, st1\<lparr>ind := d\<rparr>))"

definition ICs ::
  "components_state \<Rightarrow> (string \<times> component) list \<times> components_state" where
  "ICs st =
     (let (items, st1) = components st; d = type_view ''IC'' items
      in (d, st1\<lparr>ics := d\<rparr>))"

definition IOs ::
  "components_state \<Rightarrow> (string \<times> component) list \<times> components_state" where
  "IOs st =
     (let (items, st1) = components st; d = type_view ''IO'' items
      in (d, st1\<lparr>ios := d\<rparr>))"

definition Others ::
  "components_state \<Rightarrow> (string \<times> component) list \<times> components_state" where
  "Others st =
     (let (items, st1) = components st; d = type_view ''Other'' items
      in (d, st1\<lparr>others := d\<rparr>))"


subsection \<open>\<open>delete_single_pin_rlc\<close>\<close>

text \<open>
  The reply of \<open>Component.FindByName(layout, name)\<close> is a component object: the layout's
  component of that name, or the null object when the layout has none. It is never
  Python's \<open>None\<close>: the sources test \<open>str(edbComponent.EDBHandle) == "0"\<close> and read
  \<open>cmp.LayoutObjs\<close> on the reply for a component that is not found.
\<close>

datatype edb_component = LayoutComponent component | NullComponent

definition FindByName :: "component list \<Rightarrow> string \<Rightarrow> edb_component" where
  "FindByName l name =
     (case find (\<lambda>c. RefDes c = name) l of
        None \<Rightarrow> NullComponent
      | Some c \<Rightarrow> LayoutComponent c)"

text \<open>
  \<open>get_component_by_name\<close> passes the reply on when it is not \<open>None\<close>, as it always is,
  and returns \<open>None\<close> otherwise.
\<close>

definition get_component_by_name :: "components_state \<Rightarrow> string \<Rightarrow> edb_component option" where
  "get_component_by_name st name = Some (FindByName (layout st) name)"

text \<open>\<open>edb_cmp.Delete()\<close>: the layout afterwards; the null object deletes nothing.\<close>

fun Delete :: "edb_component \<Rightarrow> component list \<Rightarrow> component list" where
  "Delete NullComponent l = l"
| "Delete (LayoutComponent c) l = remove1 c l"

text \<open>
  The first loop: for every cached resistor, capacitor or inductor with fewer than two
  pins, the component object of that name is fetched and, not being \<open>None\<close>, deleted, and
  the name is collected.
\<close>

fun delete_rlc_loop ::
  "(string \<times> component) list \<Rightarrow> components_state \<Rightarrow> string list
     \<Rightarrow> string list \<times> components_state" where
  "delete_rlc_loop [] st deleted_comps = (deleted_comps, st)"
| "delete_rlc_loop ((refdes, val) # rest) st deleted_comps =
     (if numpins val < 2 \<and>
         (type val = ''Resistor'' \<or> type val = ''Capacitor'' \<or> type val = ''Inductor'')
      then
        (case get_component_by_name st refdes of
           None \<Rightarrow> delete_rlc_loop rest st deleted_comps
         | Some edb_cmp \<Rightarrow>
             delete_rlc_loop rest
               (st\<lparr>layout := Delete edb_cmp (layout st),
                   messages := messages st @ [''Component '' @ refdes @ '' deleted'']\<rparr>)
               (deleted_comps @ [refdes]))
      else delete_rlc_loop rest st deleted_comps)"

text \<open>
  The second loop, \<open>del self.components[el]\<close>: each pass reads the property
  \<open>components\<close> and deletes the key from the dictionary it returns; a missing key
  raises KeyError.
\<close>

fun del_components_loop :: "string list \<Rightarrow> components_state \<Rightarrow> error + components_state" where
  "del_components_loop [] st = Inr st"
| "del_components_loop (el # rest) st =
     (let (items, st1) = components st in
      if el \<in> fst ` set items
      then del_components_loop rest (st1\<lparr>cmp := AList.delete el (cmp st1)\<rparr>)
      else Inl KeyError)"

definition delete_single_pin_rlc ::
  "components_state \<Rightarrow> error + (string list \<times> components_state)" where
  "delete_single_pin_rlc st =
     (let (items, st1) = components st;
          (deleted_comps, st2) = delete_rlc_loop items st1 []
      in and_then (del_components_loop deleted_comps st2) (\<lambda>st3. Inr (deleted_comps, st3)))"

text \<open>
  For the statement of what \<open>delete_single_pin_rlc\<close> does: the layout after
  \<open>FindByName(name).Delete()\<close>, and the cached entries of a resistor, capacitor or
  inductor with fewer than two pins.
\<close>

definition delete_from_layout :: "string \<Rightarrow> component list \<Rightarrow> component list" where
  "delete_from_layout name l = Delete (FindByName l name) l"

definition single_pin_rlc :: "string \<times> component \<Rightarrow> bool" where
  "single_pin_rlc kv =
     (numpins (snd kv) < 2
      \<and> (type (snd kv) = ''Resistor'' \<or> type (snd kv) = ''Capacitor''
           \<or> type (snd kv) = ''Inductor''))"

subsection \<open>\<open>update_rlc_from_bom\<close>\<close>

text \<open>A call \<open>set_component_rlc(componentname, res_value, ind_value, cap_value)\<close>.\<close>

record rlc_call =
  componentname :: string
  res_value :: "string option"
  ind_value :: "string option"
  cap_value :: "string option"

text \<open>The local variables of the loop over the lines, and the calls made so far.\<close>

record bom_vars =
  found :: bool
  refdescolumn :: "nat option"
  comptypecolumn :: "nat option"
  valuecolumn :: "nat option"
  calls :: "rlc_call list"

text \<open>\<open>content_line[column]\<close>: TypeError when the column is still \<open>None\<close>.\<close>

definition py_index_opt :: "'a list \<Rightarrow> nat option \<Rightarrow> error + 'a" where
  "py_index_opt xs column = (case column of None \<Rightarrow> Inl TypeError | Some i \<Rightarrow> py_index xs i)"

text \<open>
  One pass of the loop. \<open>elif refdescolumn:\<close> is Python's truth test on the column:
  false for \<open>None\<close> and for column \<open>0\<close>.
\<close>

definition bom_line ::
  "string \<Rightarrow> string \<Rightarrow> string \<Rightarrow> string \<Rightarrow> string \<Rightarrow> bom_vars \<Rightarrow> error + bom_vars" where
  "bom_line delimiter valuefield comptype refdes line s =
     and_then (py_split delimiter line) (\<lambda>fields.
       let content_line = map py_strip fields;
           s1 = (if valuefield \<in> set content_line
                 then s\<lparr>valuecolumn := Some (index_of content_line valuefield)\<rparr> else s);
           s2 = (if comptype \<in> set content_line
                 then s1\<lparr>comptypecolumn := Some (index_of content_line comptype)\<rparr> else s1)
       in if refdes \<in> set content_line
          then Inr (s2\<lparr>refdescolumn := Some (index_of content_line refdes)\<rparr>)
          else if (case refdescolumn s2 of None \<Rightarrow> False | Some n \<Rightarrow> n \<noteq> 0) then
            and_then (py_index_opt content_line (refdescolumn s2)) (\<lambda>refdes_field.
            and_then (py_split '' '' refdes_field) (\<lambda>refdes_parts.
            and_then (py_index refdes_parts 0) (\<lambda>new_refdes.
            and_then (py_index_opt content_line (valuecolumn s2)) (\<lambda>value_field.
            and_then (py_split '' '' value_field) (\<lambda>value_parts.
            and_then (py_index value_parts 0) (\<lambda>new_value.
            and_then (py_index_opt content_line (comptypecolumn s2)) (\<lambda>new_type.
              let s3 = s2\<lparr>found := True\<rparr>;
                  call = \<lparr>componentname = new_refdes, res_value = None,
                          ind_value = None, cap_value = None\<rparr>
              in if py_contains ''resistor'' (py_lower new_type)
                 then Inr (s3\<lparr>calls := calls s3 @ [call\<lparr>res_value := Some new_value\<rparr>]\<rparr>)
                 else if py_contains ''capacitor'' (py_lower new_type)
                 then Inr (s3\<lparr>calls := calls s3 @ [call\<lparr>cap_value := Some new_value\<rparr>]\<rparr>)
                 else if py_contains ''inductor'' (py_lower new_type)
                 then Inr (s3\<lparr>calls := calls s3 @ [call\<lparr>ind_value := Some new_value\<rparr>]\<rparr>)
                 else Inr s3)))))))
          else Inr s2)"

fun bom_loop ::
  "string \<Rightarrow> string \<Rightarrow> string \<Rightarrow> string \<Rightarrow> string list \<Rightarrow> bom_vars \<Rightarrow> error + bom_vars" where
  "bom_loop delimiter valuefield comptype refdes [] s = Inr s"
| "bom_loop delimiter valuefield comptype refdes (line # Lines) s =
     and_then (bom_line delimiter valuefield comptype refdes line s)
       (bom_loop delimiter valuefield comptype refdes Lines)"

text \<open>
  \<open>update_rlc_from_bom\<close> on the lines \<open>f.readlines()\<close> gives (each with its line end):
  the value returned and the calls of \<open>set_component_rlc\<close> made.
\<close>

definition update_rlc_from_bom ::
  "string list \<Rightarrow> string \<Rightarrow> string \<Rightarrow> string \<Rightarrow> string \<Rightarrow> error + (bool \<times> rlc_call list)" where
  "update_rlc_from_bom Lines delimiter valuefield comptype refdes =
     and_then
       (bom_loop delimiter valuefield comptype refdes Lines
          \<lparr>found = False, refdescolumn = None, comptypecolumn = None,
           valuecolumn = None, calls = []\<rparr>)
       (\<lambda>s. Inr (found s, calls s))"

subsection \<open>Example data\<close>

text \<open>
  A layout of four components, a \<open>Components\<close> object whose cache is still empty, the
  same object after its first read of \<open>components\<close>, and one whose cache holds a
  component that is no longer in the layout.
\<close>

definition example_layout :: "component list" where
  "example_layout =
     [\<lparr>RefDes = ''R1'', type = ''Resistor'', numpins = 1\<rparr>,
      \<lparr>RefDes = ''U1'', type = ''IC'', numpins = 8\<rparr>,
      \<lparr>RefDes = ''C1'', type = ''Capacitor'', numpins = 2\<rparr>,
      \<lparr>RefDes = ''L1'', type = ''Inductor'', numpins = 0\<rparr>]"

definition example_empty :: components_state where
  "example_empty =
     \<lparr>cmp = [], res = [], cap = [], ind = [], ics = [], ios = [], others = [],
      layout = example_layout, layout_raises = False, queries = 0, messages = []\<rparr>"

definition example_cached :: components_state where
  "example_cached =
     example_empty\<lparr>cmp := map (\<lambda>c. (RefDes c, c)) example_layout, queries := 1\<rparr>"

definition example_stale :: components_state where
  "example_stale =
     example_empty\<lparr>cmp := [(''R9'', \<lparr>RefDes = ''R9'', type = ''Resistor'', numpins = 1\<rparr>)],
                   queries := 1\<rparr>"

section \<open>Properties of the built-ins\<close>

declare str_nat.simps [simp del]

lemma digit_cases: "d < 10 \<Longrightarrow> d = 0 \<or> d = 1 \<or> d = 2 \<or> d = 3 \<or> d = 4 \<or> d = 5 \<or> d = 6 \<or> d = 7 \<or> d = 8 \<or> d = (9::nat)"
  by arith

lemma is_digit_digit_char: "d < 10 \<Longrightarrow> is_digit (digit_char d)"
  using digit_cases [of d] by (auto simp: is_digit_def digit_char_def)

lemma digit_val_digit_char: "d < 10 \<Longrightarrow> digit_val (digit_char d) = d"
  using digit_cases [of d] by (auto simp: digit_val_def digit_char_def)

lemma is_digit_not_space: "is_digit c \<Longrightarrow> \<not> is_space c"
  by (auto simp: is_digit_def is_space_def)

lemma is_digit_not_sign: "is_digit c \<Longrightarrow> c \<noteq> CHR ''-'' \<and> c \<noteq> CHR ''+'' \<and> c \<noteq> CHR ''.''"
  by (auto simp: is_digit_def)

lemma str_nat_digits: "list_all is_digit (str_nat n)"
proof (induction n rule: str_nat.induct)
  case (1 n)
  show ?case
  proof (cases "n < 10")
    case True
    then show ?thesis by (simp add: str_nat.simps [of n] is_digit_digit_char)
  next
    case False
    with 1 show ?thesis by (simp add: str_nat.simps [of n] is_digit_digit_char)
  qed
qed

lemma str_nat_nonempty: "str_nat n \<noteq> []"
  by (simp add: str_nat.simps [of n])

lemma digits_value_str_nat: "digits_value (str_nat n) = n"
proof (induction n rule: str_nat.induct)
  case (1 n)
  show ?case
  proof (cases "n < 10")
    case True
    then show ?thesis by (simp add: digits_value_def str_nat.simps [of n] digit_val_digit_char)
  next
    case False
    with 1 show ?thesis by (simp add: digits_value_def str_nat.simps [of n] digit_val_digit_char)
  qed
qed

lemma parse_digits_str_nat: "parse_digits (str_nat n) = Some n"
  by (simp add: parse_digits_def str_nat_digits str_nat_nonempty digits_value_str_nat)

lemma py_strip_id: "s \<noteq> [] \<Longrightarrow> \<not> is_space (hd s) \<Longrightarrow> \<not> is_space (last s) \<Longrightarrow> py_strip s = s"
proof -
  assume a: "s \<noteq> []" "\<not> is_space (hd s)" "\<not> is_space (last s)"
  from a have 1: "dropWhile is_space s = s" by (cases s) auto
  from a have 2: "dropWhile is_space (rev s) = rev s" by (cases "rev s") (auto simp: hd_rev)
  show ?thesis by (simp add: py_strip_def 1 2)
qed

lemma py_strip_digits: "s \<noteq> [] \<Longrightarrow> list_all is_digit s \<Longrightarrow> py_strip s = s"
  by (rule py_strip_id) (auto simp: list_all_iff is_digit_not_space)

lemma underscores_ok_none: "CHR ''_'' \<notin> set s \<Longrightarrow> underscores_ok prev s"
  by (induction s arbitrary: prev) auto

lemma degroup_none: "CHR ''_'' \<notin> set s \<Longrightarrow> degroup s = Some s"
proof -
  assume a: "CHR ''_'' \<notin> set s"
  then have "filter (\<lambda>c. c \<noteq> CHR ''_'') s = s" by (induction s) auto
  with a show ?thesis by (simp add: degroup_def underscores_ok_none)
qed

lemma is_digit_not_underscore: "is_digit c \<Longrightarrow> c \<noteq> CHR ''_''"
  by (auto simp: is_digit_def)

lemma parse_grouped_digits_digits:
  assumes "parse_digits s = Some n"
  shows "parse_grouped_digits s = Some n"
proof -
  from assms have "list_all is_digit s" by (auto simp: parse_digits_def split: if_splits)
  then have "CHR ''_'' \<notin> set s" using is_digit_not_underscore by (auto simp: list_all_iff)
  then show ?thesis using assms by (simp add: parse_grouped_digits_def degroup_none)
qed

lemma py_int_digits:
  assumes "parse_digits s = Some n"
  shows "py_int s = Inr (int n)"
proof -
  from assms have d: "s \<noteq> []" "list_all is_digit s"
    by (auto simp: parse_digits_def split: if_splits)
  then obtain c cs where s: "s = c # cs" by (cases s) auto
  with d have "is_digit c" by simp
  then have c: "c \<noteq> CHR ''-''" "c \<noteq> CHR ''+''" using is_digit_not_sign by auto
  have g: "parse_grouped_digits (c # cs) = Some n"
    using parse_grouped_digits_digits [OF assms] by (simp add: s)
  have "py_strip (c # cs) = c # cs" using py_strip_digits [OF d] by (simp add: s)
  then show ?thesis using c g by (simp add: py_int_def s)
qed

lemma py_int_py_str: "0 \<le> i \<Longrightarrow> py_int (py_str i) = Inr i"
  by (simp add: py_str_def py_int_digits [OF parse_digits_str_nat])

lemma py_replace_from_notin:
  "c \<notin> set s \<Longrightarrow> py_replace_from (c # old) new s = s"
  by (induction s) auto

lemma py_replace_from_prefix:
  "old \<noteq> [] \<Longrightarrow> py_replace_from old new (old @ s) = new @ py_replace_from old new s"
  by (cases old) auto

section \<open>Properties of the version keys\<close>

lemma str_nat_one: "n < 10 \<Longrightarrow> str_nat n = [digit_char n]"
  by (simp add: str_nat.simps [of n])

lemma str_nat_two: "10 \<le> n \<Longrightarrow> n < 100 \<Longrightarrow> str_nat n = [digit_char (n div 10), digit_char (n mod 10)]"
  by (simp add: str_nat.simps [of n] str_nat_one)

lemma py_str_nonneg: "0 \<le> i \<Longrightarrow> py_str i = str_nat (nat i)"
  by (simp add: py_str_def)

lemma str_nat_set: "c \<in> set (str_nat n) \<Longrightarrow> is_digit c"
  using str_nat_digits [of n] by (simp add: list_all_iff)

lemma is_digit_not_A: "is_digit c \<Longrightarrow> c \<noteq> CHR ''A''"
  by (auto simp: is_digit_def)

lemma replace_root_digits:
  assumes "list_all is_digit s"
  shows "py_replace ''ANSYSEM_ROOT'' '''' (''ANSYSEM_ROOT'' @ s) = s"
proof -
  have "CHR ''A'' \<notin> set s" using assms is_digit_not_A by (auto simp: list_all_iff)
  then have "py_replace_from ''ANSYSEM_ROOT'' '''' s = s" by (rule py_replace_from_notin)
  then show ?thesis
    using py_replace_from_prefix [of "''ANSYSEM_ROOT''" "''''" s] by (simp add: py_replace_def)
qed

lemma version_key_digits:
  assumes a: "a < 10" and b: "b < 10" and r: "r < 10"
  shows "version_key (''ANSYSEM_ROOT'' @ [digit_char a, digit_char b, digit_char r]) =
     Inr (let version = int (10 * a + b); release = int r in
          if version < 20
          then (if release < 3 then ''20'' @ py_str (version - 1) @ ''.'' @ py_str release
                else ''20'' @ py_str version @ ''.'' @ py_str (release - 2))
          else ''20'' @ py_str version @ ''.'' @ py_str release)"
proof -
  let ?s = "[digit_char a, digit_char b, digit_char r]"
  have d: "list_all is_digit ?s" using a b r by (simp add: is_digit_digit_char)
  have rep: "py_replace ''ANSYSEM_ROOT'' '''' (''ANSYSEM_ROOT'' @ ?s) = ?s"
    using d by (rule replace_root_digits)
  have v: "py_int [digit_char a, digit_char b] = Inr (int (10 * a + b))"
    by (rule py_int_digits) (simp add: parse_digits_def digits_value_def a b is_digit_digit_char digit_val_digit_char)
  have rr: "py_int [digit_char r] = Inr (int r)"
    by (rule py_int_digits) (simp add: parse_digits_def digits_value_def r is_digit_digit_char digit_val_digit_char)
  show ?thesis
    unfolding version_key_def rep
    by (simp add: py_slice_def py_index_def v rr and_then_def Let_def)
qed

lemma env_name_digits:
  assumes "10 \<le> vv" "vv \<le> 99" "0 \<le> r" "r \<le> 9"
  shows "env_name vv r =
    ''ANSYSEM_ROOT'' @ [digit_char (nat vv div 10), digit_char (nat vv mod 10), digit_char (nat r)]"
  using assms by (simp add: env_name_def py_str_nonneg str_nat_two str_nat_one)

lemma version_key_env_name:
  assumes "10 \<le> vv" "vv \<le> 99" "0 \<le> r" "r \<le> 9"
  shows "version_key (env_name vv r) = Inr (spec_version_key vv r)"
proof -
  have 1: "nat vv div 10 < 10" "nat vv mod 10 < 10" "nat r < 10" using assms by auto
  have 2: "int (10 * (nat vv div 10) + nat vv mod 10) = vv" using assms by simp
  have 3: "int (nat r) = r" using assms by simp
  show ?thesis
    unfolding env_name_digits [OF assms] version_key_digits [OF 1] 2 3
    by (simp add: spec_version_key_def Let_def)
qed

lemma version_keys_loop_env:
  assumes "\<forall>p \<in> set vrs. 10 \<le> fst p \<and> fst p \<le> 99 \<and> 0 \<le> snd p \<and> snd p \<le> 9"
  shows "version_keys_loop (map (\<lambda>p. env_name (fst p) (snd p)) vrs) (keys, ids) =
     Inr (keys @ map (\<lambda>p. spec_version_key (fst p) (snd p)) vrs,
          fold (\<lambda>p. AList.update (spec_version_key (fst p) (snd p)) (env_name (fst p) (snd p))) vrs ids)"
  using assms
proof (induction vrs arbitrary: keys ids)
  case Nil
  then show ?case by simp
next
  case (Cons p vrs)
  then have k: "version_key (env_name (fst p) (snd p)) = Inr (spec_version_key (fst p) (snd p))"
    by (simp add: version_key_env_name)
  from Cons show ?case by (simp add: k and_then_def)
qed

text \<open>
  Claim C1. For an installed list of names \<open>ANSYSEM_ROOT<VV><R>\<close>, \<open>VV\<close> a two-digit
  number and \<open>R\<close> a digit, \<open>version_keys\<close> returns, name by name, the key \<open>20VV.R\<close> when
  \<open>VV \<ge> 20\<close>, \<open>20(VV-1).R\<close> when \<open>VV < 20\<close> and \<open>R < 3\<close>, and \<open>20VV.(R-2)\<close> when
  \<open>VV < 20\<close> and \<open>R \<ge> 3\<close>; \<open>current_version\<close> is the key of the first name (and raises
  IndexError on an empty list).
\<close>

theorem version_keys_derivation:
  assumes "\<forall>p \<in> set vrs. 10 \<le> fst p \<and> fst p \<le> 99 \<and> 0 \<le> snd p \<and> snd p \<le> 9"
  shows "version_keys (map (\<lambda>p. env_name (fst p) (snd p)) vrs) =
           Inr (map (\<lambda>p. spec_version_key (fst p) (snd p)) vrs,
                fold (\<lambda>p. AList.update (spec_version_key (fst p) (snd p)) (env_name (fst p) (snd p))) vrs [])
         \<and> current_version (map (\<lambda>p. env_name (fst p) (snd p)) vrs) =
           (case vrs of [] \<Rightarrow> Inl IndexError | p # _ \<Rightarrow> Inr (spec_version_key (fst p) (snd p)))"
  using version_keys_loop_env [OF assms, of "[]" "[]"]
  by (simp add: version_keys_def current_version_def and_then_def py_index_def split: list.split)

lemma env_name_eval:
  "env_name 21 1 = ''ANSYSEM_ROOT211''" "env_name 19 4 = ''ANSYSEM_ROOT194''"
  "env_name 19 1 = ''ANSYSEM_ROOT191''"
  by (simp_all add: env_name_def py_str_def str_nat.simps digit_char_def)

lemma spec_version_key_eval:
  "spec_version_key 21 1 = ''2021.1''" "spec_version_key 19 4 = ''2019.2''"
  "spec_version_key 19 1 = ''2018.1''"
  by (simp_all add: spec_version_key_def py_str_def str_nat.simps digit_char_def)

theorem version_keys_derivation_witness:
  "version_keys [''ANSYSEM_ROOT211'', ''ANSYSEM_ROOT194'', ''ANSYSEM_ROOT191''] =
     Inr ([''2021.1'', ''2019.2'', ''2018.1''],
          [(''2021.1'', ''ANSYSEM_ROOT211''), (''2019.2'', ''ANSYSEM_ROOT194''),
           (''2018.1'', ''ANSYSEM_ROOT191'')])
   \<and> current_version [''ANSYSEM_ROOT211'', ''ANSYSEM_ROOT194'', ''ANSYSEM_ROOT191''] = Inr ''2021.1''"
  using version_keys_derivation [of "[(21, 1), (19, 4), (19, 1)]"]
  by (simp add: env_name_eval spec_version_key_eval)

lemma py_split_from_skip:
  "c \<notin> set a \<Longrightarrow> py_split_from [c] cur (a @ t) = py_split_from [c] (cur @ a) t"
  by (induction a arbitrary: cur) auto

lemma py_split_from_last:
  "c \<notin> set b \<Longrightarrow> py_split_from [c] cur b = [cur @ b]"
  using py_split_from_skip [of c b cur "[]"] by simp

lemma py_split_two:
  assumes "c \<notin> set a" "c \<notin> set b"
  shows "py_split [c] (a @ c # b) = Inr [a, b]"
  using py_split_from_skip [OF assms(1), of "[]" "c # b"] py_split_from_last [OF assms(2), of "[]"]
  by (simp add: py_split_def)

lemma str_nat_no_dot: "CHR ''.'' \<notin> set (str_nat n)"
  using str_nat_set [of "CHR ''.''" n] is_digit_not_sign by blast

lemma get_version_env_variable_key:
  assumes "0 \<le> v" "0 \<le> q"
  shows "get_version_env_variable (''20'' @ py_str v @ ''.'' @ py_str q) =
     Inr (if v < 20 then (if q < 3 then ''ANSYSEM_ROOT'' @ py_str (v + 1) @ py_str q
                          else ''ANSYSEM_ROOT'' @ py_str v @ py_str (q + 2))
          else ''ANSYSEM_ROOT'' @ py_str v @ py_str q)"
proof -
  have a: "CHR ''.'' \<notin> set (''20'' @ py_str v)" using assms str_nat_no_dot by (simp add: py_str_def)
  have b: "CHR ''.'' \<notin> set (py_str q)" using assms str_nat_no_dot by (simp add: py_str_def)
  have s: "py_split ''.'' (''20'' @ py_str v @ ''.'' @ py_str q) = Inr [''20'' @ py_str v, py_str q]"
    using py_split_two [OF a b] by simp
  show ?thesis
    unfolding get_version_env_variable_def s
    by (simp add: and_then_def py_index_def py_int_py_str assms)
qed

lemmas get_version_env_variable_key_cons = get_version_env_variable_key [simplified]

text \<open>
  Where the round trip holds: \<open>get_version_env_variable\<close> gives back the name
  \<open>ANSYSEM_ROOT<VV><R>\<close> from the key \<open>version_keys\<close> derives for it when \<open>VV \<ge> 20\<close>, or
  \<open>R < 3\<close>, or \<open>R \<ge> 5\<close>.
\<close>

theorem get_version_env_variable_inverts:
  assumes "10 \<le> vv" "vv \<le> 99" "0 \<le> r" "r \<le> 9" and "vv \<ge> 20 \<or> r < 3 \<or> 5 \<le> r"
  shows "and_then (version_key (env_name vv r)) get_version_env_variable = Inr (env_name vv r)"
proof -
  have k: "version_key (env_name vv r) = Inr (spec_version_key vv r)"
    using assms by (simp add: version_key_env_name)
  show ?thesis
    unfolding k using assms
    by (auto simp: and_then_def spec_version_key_def get_version_env_variable_key_cons env_name_def)
qed

theorem get_version_env_variable_inverts_witness:
  "and_then (version_key ''ANSYSEM_ROOT211'') get_version_env_variable = Inr ''ANSYSEM_ROOT211''
   \<and> and_then (version_key ''ANSYSEM_ROOT191'') get_version_env_variable = Inr ''ANSYSEM_ROOT191''"
  using get_version_env_variable_inverts [of 21 1] get_version_env_variable_inverts [of 19 1]
  by (simp add: env_name_eval)

text \<open>
  The keys \<open>2019.1\<close> and \<open>2019.2\<close> each come from one name only, \<open>ANSYSEM_ROOT193\<close> and
  \<open>ANSYSEM_ROOT194\<close>: there the inverse is determined.
\<close>

lemma py_str_inj:
  assumes "0 \<le> a" "0 \<le> b" "py_str a = py_str b"
  shows "a = b"
proof -
  have "(Inr a :: error + int) = py_int (py_str a)"
    using assms(1) by (simp only: py_int_py_str)
  also have "\<dots> = py_int (py_str b)" by (simp only: assms(3))
  also have "\<dots> = Inr b" using assms(2) by (simp only: py_int_py_str)
  finally show ?thesis by (simp only: sum.inject)
qed

lemma py_split_key:
  assumes "0 \<le> v" "0 \<le> q"
  shows "py_split ''.'' (''20'' @ py_str v @ ''.'' @ py_str q) = Inr [''20'' @ py_str v, py_str q]"
proof -
  have a: "CHR ''.'' \<notin> set (''20'' @ py_str v)" using assms str_nat_no_dot by (simp add: py_str_def)
  have b: "CHR ''.'' \<notin> set (py_str q)" using assms str_nat_no_dot by (simp add: py_str_def)
  show ?thesis using py_split_two [OF a b] by simp
qed

lemma key_shape_inj:
  assumes "0 \<le> a" "0 \<le> b" "0 \<le> a'" "0 \<le> b'"
    and "''20'' @ py_str a @ ''.'' @ py_str b = ''20'' @ py_str a' @ ''.'' @ py_str b'"
  shows "a = a' \<and> b = b'"
proof -
  have "py_split ''.'' (''20'' @ py_str a @ ''.'' @ py_str b) =
        py_split ''.'' (''20'' @ py_str a' @ ''.'' @ py_str b')"
    by (simp only: assms(5))
  then have "(Inr [''20'' @ py_str a, py_str b] :: error + string list) =
             Inr [''20'' @ py_str a', py_str b']"
    by (simp only: py_split_key [OF assms(1,2)] py_split_key [OF assms(3,4)])
  then have "''20'' @ py_str a = ''20'' @ py_str a'" and sb: "py_str b = py_str b'"
    by (simp_all only: sum.inject list.inject)
  then have sa: "py_str a = py_str a'" by (simp only: same_append_eq)
  show ?thesis
    using py_str_inj [OF assms(1,3) sa] py_str_inj [OF assms(2,4) sb] by blast
qed

lemma spec_version_key_shape:
  "spec_version_key vv r =
     ''20'' @ py_str (if vv \<ge> 20 \<or> \<not> r < 3 then vv else vv - 1)
       @ ''.'' @ py_str (if vv \<ge> 20 \<or> r < 3 then r else r - 2)"
  by (simp add: spec_version_key_def)

lemma key_2019_only:
  assumes "10 \<le> vv" "vv \<le> 99" "0 \<le> r" "r \<le> 9" and "q = 3 \<or> q = 4"
    and "spec_version_key vv r = spec_version_key 19 q"
  shows "vv = 19 \<and> r = q"
proof -
  let ?a = "if vv \<ge> 20 \<or> \<not> r < 3 then vv else vv - 1"
  let ?b = "if vv \<ge> 20 \<or> r < 3 then r else r - 2"
  have q: "spec_version_key 19 q = ''20'' @ py_str 19 @ ''.'' @ py_str (q - 2)"
    using assms(5) by (auto simp: spec_version_key_def)
  have e: "''20'' @ py_str ?a @ ''.'' @ py_str ?b = ''20'' @ py_str 19 @ ''.'' @ py_str (q - 2)"
    using assms(6) unfolding q spec_version_key_shape [of vv r] .
  have "?a = 19 \<and> ?b = q - 2"
    using assms(1-5) by (intro key_shape_inj [OF _ _ _ _ e]) auto
  then show ?thesis using assms(1-5) by (auto split: if_splits)
qed

text \<open>
  Claim C2 at the failing input. \<open>version_keys\<close> derives the key \<open>2019.2\<close> for
  \<open>ANSYSEM_ROOT194\<close> and \<open>2019.1\<close> for \<open>ANSYSEM_ROOT193\<close>; \<open>get_version_env_variable\<close>
  reads their release as the case \<open>release < 3\<close> and returns \<open>ANSYSEM_ROOT202\<close> and
  \<open>ANSYSEM_ROOT201\<close>, the variables of another release.
\<close>

theorem get_version_env_variable_wrong_release:
  "version_key ''ANSYSEM_ROOT194'' = Inr ''2019.2''
   \<and> get_version_env_variable ''2019.2'' = Inr ''ANSYSEM_ROOT202''
   \<and> version_key ''ANSYSEM_ROOT193'' = Inr ''2019.1''
   \<and> get_version_env_variable ''2019.1'' = Inr ''ANSYSEM_ROOT201''"
proof -
  have n: "env_name 19 3 = ''ANSYSEM_ROOT193''" "spec_version_key 19 3 = ''2019.1''"
    by (simp_all add: env_name_def spec_version_key_def py_str_def str_nat.simps digit_char_def)
  have k4: "version_key ''ANSYSEM_ROOT194'' = Inr ''2019.2''"
    using version_key_env_name [of 19 4] by (simp add: env_name_eval spec_version_key_eval)
  have k3: "version_key ''ANSYSEM_ROOT193'' = Inr ''2019.1''"
    using version_key_env_name [of 19 3] by (simp add: n)
  have g2: "get_version_env_variable ''2019.2'' = Inr ''ANSYSEM_ROOT202''"
    using get_version_env_variable_key [of 19 2]
    by (simp add: py_str_def str_nat.simps digit_char_def)
  have g1: "get_version_env_variable ''2019.1'' = Inr ''ANSYSEM_ROOT201''"
    using get_version_env_variable_key [of 19 1]
    by (simp add: py_str_def str_nat.simps digit_char_def)
  from k4 k3 g2 g1 show ?thesis by simp
qed

section \<open>Properties of releasing and closing the desktop\<close>

declare release_scopes.simps [simp del] release_scope_zero.simps [simp del]

lemma release_scopes_upto: "release_scopes i scopeID = map ReleaseCOMObjectScope [i..scopeID]"
proof (induction i scopeID rule: release_scopes.induct)
  case (1 i scopeID)
  show ?case
  proof (cases "i \<le> scopeID")
    case True
    with 1 show ?thesis by (subst release_scopes.simps) (simp add: upto_rec1 [of i scopeID])
  next
    case False
    then show ?thesis by (subst release_scopes.simps) simp
  qed
qed

lemma release_scope_zero_replicate:
  "release_scope_zero i scopeID = replicate (nat (scopeID + 1 - i)) (ReleaseCOMObjectScope 0)"
proof (induction i scopeID rule: release_scope_zero.induct)
  case (1 i scopeID)
  show ?case
  proof (cases "i \<le> scopeID")
    case True
    then have "nat (scopeID + 1 - i) = Suc (nat (scopeID + 1 - (i + 1)))" by simp
    with 1 True show ?thesis by (subst release_scope_zero.simps) simp
  next
    case False
    then show ?thesis by (subst release_scope_zero.simps) simp
  qed
qed

lemma release_scopes_distinct: "distinct (release_scopes i scopeID)"
  by (simp add: release_scopes_upto distinct_map inj_on_def)

lemma release_scopes_set:
  "set (release_scopes 0 scopeID) = ReleaseCOMObjectScope ` {0..scopeID}"
  by (simp add: release_scopes_upto)

text \<open>
  Under \<open>pythonnet\<close> with \<open>close_projects\<close> true, \<open>release_desktop\<close> closes every project
  of the project list, then releases each scope index from \<open>0\<close> to \<open>ScopeID\<close> once, in
  ascending order, then deletes the desktop handle, and returns \<open>None\<close>.
\<close>

lemma release_desktop_pythonnet:
  "release_desktop Pythonnet True close_desktop w =
     (map CloseProject (ProjectList w) @ map ReleaseCOMObjectScope [0..ScopeID w] @ [DelDesktop],
      None)"
  by (simp add: release_desktop_def close_all_projects_def release_scopes_upto)

text \<open>
  Under \<open>pythonnet_v3\<close> with \<open>close_projects\<close> true and \<open>close_desktop\<close> false,
  \<open>release_desktop\<close> closes every project, then releases each scope index from \<open>0\<close> to
  \<open>5\<close> once, in ascending order, then deletes the desktop handle and the attribute
  \<open>pyaedt_initialized\<close> when there is one, and returns \<open>None\<close>; the process is not killed.
\<close>

lemma release_desktop_pythonnet_v3_keep:
  "release_desktop Pythonnet_v3 True False w =
     (map CloseProject (ProjectList w) @ map ReleaseCOMObjectScope [0..5] @ [DelDesktop]
        @ (if pyaedt_initialized w then [DelInitialized] else []),
      None)"
  by (simp add: release_desktop_def close_all_projects_def release_scopes_upto)

lemma release_desktop_pythonnet_v3_close:
  "release_desktop Pythonnet_v3 True True w =
     (map CloseProject (ProjectList w) @ replicate 6 (ReleaseCOMObjectScope 0)
        @ [GetProcessID, Kill (ProcessID w)]
        @ (if kill_succeeds w then [DelDesktop]
           else [ErrorMessage ''something went wrong in Closing AEDT'']),
      Some (kill_succeeds w))"
  by (simp add: release_desktop_def close_all_projects_def release_scope_zero_replicate Let_def)

text \<open>
  Claim C3 at the failing input: under \<open>pythonnet_v3\<close> with \<open>close_projects\<close> and
  \<open>close_desktop\<close> both true, the projects are closed first and the process is killed
  last, but the six release calls all name scope \<open>0\<close>; the scopes \<open>1\<close> to \<open>5\<close> are never
  released. The two sibling paths (lemmas \<open>release_desktop_pythonnet\<close> and
  \<open>release_desktop_pythonnet_v3_keep\<close>) release every index once.
\<close>

theorem release_desktop_close_releases_scope_zero_only:
  "release_desktop Pythonnet_v3 True True
     \<lparr>ScopeID = 5, ProcessID = 77, ProjectList = [''p1'', ''p2''],
      pyaedt_initialized = True, kill_succeeds = True\<rparr> =
   ([CloseProject ''p1'', CloseProject ''p2'',
     ReleaseCOMObjectScope 0, ReleaseCOMObjectScope 0, ReleaseCOMObjectScope 0,
     ReleaseCOMObjectScope 0, ReleaseCOMObjectScope 0, ReleaseCOMObjectScope 0,
     GetProcessID, Kill 77, DelDesktop], Some True)"
  by (simp add: release_desktop_pythonnet_v3_close numeral_eq_Suc)

text \<open>
  Claim C10, as amended. \<open>force_close_desktop\<close> never releases a COM object scope: the
  loop reads an unbound variable, and the NameError is logged. When the process id is
  positive, the projects are closed before that attempt and the process is killed after
  it, and the function returns \<open>True\<close> exactly when the kill succeeds; when the process id
  is not positive, nothing more is called and \<open>None\<close> is returned.
\<close>

theorem force_close_desktop_behaviour:
  "(\<forall>i. ReleaseCOMObjectScope i \<notin> set (fst (force_close_desktop w)))
   \<and> force_close_desktop w =
       (if ProcessID w > 0 then
          (GetProcessID # map CloseProject (ProjectList w)
             @ [LoggerError ''No COM UTIL. Closing the Desktop....'']
             @ (if pyaedt_initialized w then [DelInitialized] else [])
             @ [Kill (ProcessID w)]
             @ (if kill_succeeds w then [DelDesktop]
                else [ErrorMessage ''something went wrong in Closing AEDT'']),
           Some (kill_succeeds w))
        else ([GetProcessID], None))
   \<and> (snd (force_close_desktop w) = Some True \<longleftrightarrow> ProcessID w > 0 \<and> kill_succeeds w)"
  by (auto simp: force_close_desktop_def release_scope_zero_local_def close_all_projects_def Let_def)

theorem force_close_desktop_behaviour_witness:
  "force_close_desktop
     \<lparr>ScopeID = 5, ProcessID = 77, ProjectList = [''p1'', ''p2''],
      pyaedt_initialized = True, kill_succeeds = True\<rparr> =
   ([GetProcessID, CloseProject ''p1'', CloseProject ''p2'',
     LoggerError ''No COM UTIL. Closing the Desktop....'', DelInitialized,
     Kill 77, DelDesktop], Some True)"
  using force_close_desktop_behaviour
    [of "\<lparr>ScopeID = 5, ProcessID = 77, ProjectList = [''p1'', ''p2''],
      pyaedt_initialized = True, kill_succeeds = True\<rparr>"]
  by simp

text \<open>
  Claim C10 as stated fails for a process id that is not positive: no project is closed
  and no process is killed.
\<close>

theorem force_close_desktop_counterexample:
  "force_close_desktop
     \<lparr>ScopeID = 5, ProcessID = 0, ProjectList = [''p1'', ''p2''],
      pyaedt_initialized = True, kill_succeeds = True\<rparr> = ([GetProcessID], None)"
  by (simp add: force_close_desktop_def)

section \<open>Properties of \<open>Desktop.__init__\<close>\<close>

lemma version_keys_loop_keys:
  "version_keys_loop names (keys, ids) = Inr (keys', ids') \<Longrightarrow>
   set keys \<subseteq> fst ` set ids \<Longrightarrow> set keys' \<subseteq> fst ` set ids'"
proof (induction names arbitrary: keys ids)
  case Nil
  then show ?case by simp
next
  case (Cons n names)
  show ?case
  proof (cases "version_key n")
    case (Inl e)
    with Cons.prems show ?thesis by (simp add: and_then_def)
  next
    case (Inr k)
    with Cons.prems have
      l: "version_keys_loop names (keys @ [k], AList.update k n ids) = Inr (keys', ids')"
      by (simp add: and_then_def)
    have "set (keys @ [k]) \<subseteq> fst ` set (AList.update k n ids)"
      using Cons.prems(2) by (auto simp: dom_update)
    with Cons.IH [OF l] show ?thesis .
  qed
qed

lemma version_keys_known:
  assumes "version_keys names = Inr (keys, ids)" "v \<in> set keys"
  shows "\<exists>env_var. map_of ids v = Some env_var"
proof -
  have "set keys \<subseteq> fst ` set ids"
    using version_keys_loop_keys [of names "[]" "[]" keys ids] assms(1)
    by (simp add: version_keys_def)
  with assms(2) have "v \<in> fst ` set ids" by blast
  then show ?thesis by (cases "map_of ids v") (auto simp: map_of_eq_None_iff)
qed

text \<open>
  Claim C9, as amended. With no desktop handle present and \<open>version_keys\<close> returning its
  keys, \<open>Desktop.__init__\<close> called with a non-empty \<open>specified_version\<close> fails with an
  assertion error exactly when that version is not among the keys; it then fails with
  the message \<open>Specified version ... not known.\<close> before any call on the vendor process.
\<close>

theorem Desktop_init_unknown_version:
  assumes "\<not> has_oDesktop env" and "version_keys (installed env) = Inr (keys, ids)"
    and "v \<noteq> []"
  shows "((\<exists>msg. snd (Desktop_init env (Some v) NG AlwaysNew) = Some (AssertionError msg))
            \<longleftrightarrow> v \<notin> set keys)
       \<and> (v \<notin> set keys \<longrightarrow>
            Desktop_init env (Some v) NG AlwaysNew =
              ([], Some (AssertionError (''Specified version '' @ v @ '' not known.''))))"
proof (cases "v \<in> set keys")
  case True
  then obtain env_var where m: "map_of ids v = Some env_var"
    using version_keys_known [OF assms(2)] by blast
  have c: "choose_version env (Some v) = Inr (v, ids)"
    using assms True by (simp add: choose_version_def and_then_def)
  show ?thesis
    using assms(1) True c m
    by (auto simp: Desktop_init_def Let_def split: prod.splits)
next
  case False
  have c: "choose_version env (Some v) =
      Inl (AssertionError (''Specified version '' @ v @ '' not known.''))"
    using assms False by (simp add: choose_version_def and_then_def)
  show ?thesis using assms(1) False c by (simp add: Desktop_init_def)
qed

lemma version_key_211: "version_key ''ANSYSEM_ROOT211'' = Inr ''2021.1''"
  using version_key_env_name [of 21 1] by (simp add: env_name_eval spec_version_key_eval)

lemma version_keys_211:
  "version_keys [''ANSYSEM_ROOT211''] = Inr ([''2021.1''], [(''2021.1'', ''ANSYSEM_ROOT211'')])"
  by (simp add: version_keys_def version_key_211 and_then_def)

theorem Desktop_init_unknown_version_witness:
  "Desktop_init \<lparr>has_oDesktop = False, installed = [''ANSYSEM_ROOT211''], com = Pywin32,
      processID = [], processID2 = [], moniker_found = False\<rparr> (Some ''2020.1'') False True =
     ([], Some (AssertionError ''Specified version 2020.1 not known.''))"
  using Desktop_init_unknown_version
    [of "\<lparr>has_oDesktop = False, installed = [''ANSYSEM_ROOT211''], com = Pywin32,
      processID = [], processID2 = [], moniker_found = False\<rparr>"
      "[''2021.1'']" "[(''2021.1'', ''ANSYSEM_ROOT211'')]" "''2020.1''" False True]
  by (simp add: version_keys_211)

text \<open>
  Claim C9 as stated fails for the empty string, which is not \<open>None\<close> and is not among
  the keys: the truth test \<open>if specified_version:\<close> sends it the way of \<open>None\<close>, and the
  latest installed version is launched.
\<close>

theorem Desktop_init_counterexample:
  "version_keys [''ANSYSEM_ROOT211''] = Inr ([''2021.1''], [(''2021.1'', ''ANSYSEM_ROOT211'')])
   \<and> Desktop_init \<lparr>has_oDesktop = False, installed = [''ANSYSEM_ROOT211''], com = Pywin32,
      processID = [], processID2 = [], moniker_found = False\<rparr> (Some '''') False True =
     ([Dispatch ''Ansoft.ElectronicsDesktop.2021.1'', RestoreWindow], None)"
  by (simp add: version_keys_211 Desktop_init_def choose_version_def and_then_def py_index_def
      connect_def)

section \<open>Properties of the component cache\<close>

lemma update_fresh: "k \<notin> fst ` set al \<Longrightarrow> AList.update k v al = al @ [(k, v)]"
  by (induction al) auto



lemma fold_update_distinct:
  "distinct (map fst d0) \<Longrightarrow>
   distinct (map fst (fold (\<lambda>c d. AList.update (RefDes c) c d) l d0))"
  by (induction l arbitrary: d0) (auto simp: distinct_update)


lemma components_cmp: "cmp (snd (components st)) = fst (components st)"
  by (simp add: components_def Let_def)

lemma components_nonempty: "cmp st \<noteq> [] \<Longrightarrow> components st = (cmp st, st)"
  by (simp add: components_def)

lemma components_layout: "layout (snd (components st)) = layout st"
  by (simp add: components_def refresh_components_def Let_def)

lemma components_messages: "messages (snd (components st)) = messages st"
  by (simp add: components_def refresh_components_def Let_def)

lemma components_distinct:
  "distinct (map fst (cmp st)) \<Longrightarrow> distinct (map fst (fst (components st)))"
  by (simp add: components_def refresh_components_def Let_def fold_update_distinct)



lemma type_view_fold:
  "distinct (map fst items) \<Longrightarrow> fst ` set acc \<inter> fst ` set items = {} \<Longrightarrow>
   fold (\<lambda>(el, val) d. if type val = ty then AList.update el val d else d) items acc =
     acc @ filter (\<lambda>(k, v). type v = ty) items"
proof (induction items arbitrary: acc)
  case Nil
  then show ?case by simp
next
  case (Cons kv items)
  obtain k v where kv: "kv = (k, v)" by (cases kv)
  from Cons.prems kv have fresh: "k \<notin> fst ` set acc" by auto
  from Cons.prems kv have d: "distinct (map fst items)" and nk: "k \<notin> fst ` set items" by auto
  show ?case
  proof (cases "type v = ty")
    case True
    have "fst ` set (acc @ [(k, v)]) \<inter> fst ` set items = {}"
      using Cons.prems(2) nk kv by auto
    from Cons.IH [OF d this] True show ?thesis by (simp add: kv update_fresh [OF fresh])
  next
    case False
    have "fst ` set acc \<inter> fst ` set items = {}" using Cons.prems(2) by auto
    from Cons.IH [OF d this] False show ?thesis by (simp add: kv)
  qed
qed

lemma type_view_filter:
  "distinct (map fst items) \<Longrightarrow> type_view ty items = filter (\<lambda>(k, v). type v = ty) items"
  using type_view_fold [of items "[]" ty] by (simp add: type_view_def)

lemma components_again:
  "fst (components (snd (components st)\<lparr>res := d\<rparr>)) = fst (components st)"
  "fst (components (snd (components st)\<lparr>cap := d\<rparr>)) = fst (components st)"
  "fst (components (snd (components st)\<lparr>ind := d\<rparr>)) = fst (components st)"
  "fst (components (snd (components st)\<lparr>ics := d\<rparr>)) = fst (components st)"
  "fst (components (snd (components st)\<lparr>ios := d\<rparr>)) = fst (components st)"
  "fst (components (snd (components st)\<lparr>others := d\<rparr>)) = fst (components st)"
  by (auto simp: components_def refresh_components_def Let_def)

lemma view_results:
  "fst (resistors st) = type_view ''Resistor'' (fst (components st))"
  "fst (capacitors st) = type_view ''Capacitor'' (fst (components st))"
  "fst (inductors st) = type_view ''Inductor'' (fst (components st))"
  "fst (ICs st) = type_view ''IC'' (fst (components st))"
  "fst (IOs st) = type_view ''IO'' (fst (components st))"
  "fst (Others st) = type_view ''Other'' (fst (components st))"
  by (simp_all add: resistors_def capacitors_def inductors_def ICs_def IOs_def Others_def
      Let_def split: prod.splits)

lemma view_states:
  "snd (resistors st) = snd (components st)\<lparr>res := fst (resistors st)\<rparr>"
  "snd (capacitors st) = snd (components st)\<lparr>cap := fst (capacitors st)\<rparr>"
  "snd (inductors st) = snd (components st)\<lparr>ind := fst (inductors st)\<rparr>"
  "snd (ICs st) = snd (components st)\<lparr>ics := fst (ICs st)\<rparr>"
  "snd (IOs st) = snd (components st)\<lparr>ios := fst (IOs st)\<rparr>"
  "snd (Others st) = snd (components st)\<lparr>others := fst (Others st)\<rparr>"
  by (simp_all add: resistors_def capacitors_def inductors_def ICs_def IOs_def Others_def
      Let_def split: prod.splits)

lemma view_same_cache:
  assumes "cmp st2 = cmp st" "cmp st \<noteq> []"
  shows "fst (resistors st2) = fst (resistors st)" "fst (capacitors st2) = fst (capacitors st)"
    "fst (inductors st2) = fst (inductors st)" "fst (ICs st2) = fst (ICs st)"
    "fst (IOs st2) = fst (IOs st)" "fst (Others st2) = fst (Others st)"
  using assms by (simp_all add: view_results components_def)

lemma view_again:
  "fst (resistors (snd (resistors st))) = fst (resistors st)"
  "fst (capacitors (snd (capacitors st))) = fst (capacitors st)"
  "fst (inductors (snd (inductors st))) = fst (inductors st)"
  "fst (ICs (snd (ICs st))) = fst (ICs st)"
  "fst (IOs (snd (IOs st))) = fst (IOs st)"
  "fst (Others (snd (Others st))) = fst (Others st)"
  by (simp_all add: view_results view_states components_again)

lemma view_cache:
  "cmp (snd (resistors st)) = fst (components st)"
  "cmp (snd (capacitors st)) = fst (components st)"
  "cmp (snd (inductors st)) = fst (components st)"
  "cmp (snd (ICs st)) = fst (components st)"
  "cmp (snd (IOs st)) = fst (components st)"
  "cmp (snd (Others st)) = fst (components st)"
  by (simp_all add: view_states components_cmp)

text \<open>
  Claim C8. Each of \<open>resistors\<close>, \<open>capacitors\<close>, \<open>inductors\<close>, \<open>ICs\<close>, \<open>IOs\<close> and
  \<open>Others\<close> returns exactly the entries of \<open>components\<close> whose type is \<open>Resistor\<close>,
  \<open>Capacitor\<close>, \<open>Inductor\<close>, \<open>IC\<close>, \<open>IO\<close> or \<open>Other\<close>, under the same keys and in the
  same order; the cache is left as \<open>components\<close> returned it, and computing the view
  again, or from any state with the same non-empty cache, gives the same dictionary.
  The keys of the cache are distinct, as the keys of a dictionary are.
\<close>

theorem classification_views:
  assumes "distinct (map fst (cmp st))"
  shows "\<forall>(view, ty) \<in> set [(resistors, ''Resistor''), (capacitors, ''Capacitor''),
                             (inductors, ''Inductor''), (ICs, ''IC''), (IOs, ''IO''),
                             (Others, ''Other'')].
           fst (view st) = filter (\<lambda>(k, v). type v = ty) (fst (components st))
         \<and> cmp (snd (view st)) = fst (components st)
         \<and> fst (view (snd (view st))) = fst (view st)
         \<and> (\<forall>st2. cmp st2 = cmp st \<and> cmp st \<noteq> [] \<longrightarrow> fst (view st2) = fst (view st))"
proof -
  have d: "distinct (map fst (fst (components st)))"
    using assms by (rule components_distinct)
  have r: "\<And>ty. type_view ty (fst (components st)) =
      filter (\<lambda>(k, v). type v = ty) (fst (components st))"
    using d by (rule type_view_filter)
  have 1: "fst (resistors st) = filter (\<lambda>(k, v). type v = ''Resistor'') (fst (components st))"
    by (simp add: view_results r)
  have 2: "fst (capacitors st) = filter (\<lambda>(k, v). type v = ''Capacitor'') (fst (components st))"
    by (simp add: view_results r)
  have 3: "fst (inductors st) = filter (\<lambda>(k, v). type v = ''Inductor'') (fst (components st))"
    by (simp add: view_results r)
  have 4: "fst (ICs st) = filter (\<lambda>(k, v). type v = ''IC'') (fst (components st))"
    by (simp add: view_results r)
  have 5: "fst (IOs st) = filter (\<lambda>(k, v). type v = ''IO'') (fst (components st))"
    by (simp add: view_results r)
  have 6: "fst (Others st) = filter (\<lambda>(k, v). type v = ''Other'') (fst (components st))"
    by (simp add: view_results r)
  show ?thesis
    unfolding list.set ball_simps prod.case
    by (intro conjI allI impI 1 2 3 4 5 6 view_cache view_again view_same_cache) auto
qed

lemma delete_rlc_loop_result:
  "delete_rlc_loop items st acc =
     (acc @ map fst (filter single_pin_rlc items),
      st\<lparr>layout := fold delete_from_layout (map fst (filter single_pin_rlc items)) (layout st),
         messages := messages st
            @ map (\<lambda>k. ''Component '' @ k @ '' deleted'')
                (map fst (filter single_pin_rlc items))\<rparr>)"
proof (induction items arbitrary: st acc)
  case Nil
  then show ?case by simp
next
  case (Cons kv items)
  obtain k v where kv: "kv = (k, v)" by (cases kv)
  show ?case
  proof (cases "single_pin_rlc (k, v)")
    case False
    then have step: "delete_rlc_loop (kv # items) st acc = delete_rlc_loop items st acc"
      by (auto simp: kv single_pin_rlc_def)
    show ?thesis
      unfolding step Cons.IH [of st acc]
      using False by (simp add: kv)
  next
    case True
    let ?st = "st\<lparr>layout := delete_from_layout k (layout st),
                  messages := messages st @ [''Component '' @ k @ '' deleted'']\<rparr>"
    have step: "delete_rlc_loop (kv # items) st acc = delete_rlc_loop items ?st (acc @ [k])"
      using True
      by (simp add: kv single_pin_rlc_def get_component_by_name_def delete_from_layout_def)
    show ?thesis
      unfolding step Cons.IH [of ?st "acc @ [k]"]
      using True by (simp add: kv)
  qed
qed

lemma del_components_loop_result:
  "distinct ds \<Longrightarrow> set ds \<subseteq> fst ` set (cmp st) \<Longrightarrow>
   del_components_loop ds st = Inr (st\<lparr>cmp := filter (\<lambda>kv. fst kv \<notin> set ds) (cmp st)\<rparr>)"
proof (induction ds arbitrary: st)
  case Nil
  then show ?case by simp
next
  case (Cons el ds)
  from Cons.prems have el: "el \<in> fst ` set (cmp st)" by simp
  then have ne: "cmp st \<noteq> []" by auto
  let ?st = "st\<lparr>cmp := AList.delete el (cmp st)\<rparr>"
  have step: "del_components_loop (el # ds) st = del_components_loop ds ?st"
    using el by (simp add: components_nonempty [OF ne])
  have d: "distinct ds" using Cons.prems by simp
  have "set (map fst (AList.delete el (cmp st))) = set (removeAll el (map fst (cmp st)))"
    by (simp only: delete_keys)
  then have keys: "fst ` set (AList.delete el (cmp st)) = fst ` set (cmp st) - {el}"
    by simp
  have sub: "set ds \<subseteq> fst ` set (cmp ?st)"
    using Cons.prems by (auto simp: keys)
  show ?case
    unfolding step Cons.IH [OF d sub]
    by (simp add: AList.delete_eq case_prod_beta conj_commute eq_commute [of el])
qed

lemma filter_keys_entries:
  assumes "distinct (map fst items)"
  shows "filter (\<lambda>kv. fst kv \<notin> set (map fst (filter P items))) items =
         filter (\<lambda>kv. kv \<notin> set (filter P items)) items"
proof (rule filter_cong [OF refl])
  fix kv assume kv: "kv \<in> set items"
  show "(fst kv \<notin> set (map fst (filter P items))) = (kv \<notin> set (filter P items))"
  proof -
    have "fst kv \<in> fst ` set (filter P items) \<Longrightarrow> kv \<in> set (filter P items)"
    proof -
      assume "fst kv \<in> fst ` set (filter P items)"
      then obtain kv' where k: "kv' \<in> set items" "P kv'" "fst kv' = fst kv" by auto
      have "kv' = kv"
        using assms k(1) k(3) kv by (metis eq_key_imp_eq_value prod.collapse)
      with k kv show ?thesis by simp
    qed
    moreover have "kv \<in> set (filter P items) \<Longrightarrow> fst kv \<in> fst ` set (filter P items)"
      by (rule imageI)
    ultimately show ?thesis unfolding set_map by blast
  qed
qed

text \<open>
  Claim C7. \<open>delete_single_pin_rlc\<close> deletes exactly the cached resistors, capacitors and
  inductors with fewer than two pins (the component object of each such name is
  fetched and deleted, one message each), returns exactly their reference designators
  in cache order, and removes exactly those entries from the cache, every other entry
  staying as it was. The keys of the cache are distinct, as the keys of a dictionary
  are.
\<close>

theorem delete_single_pin_rlc_exact:
  assumes "distinct (map fst (cmp st))"
  shows "\<exists>st3. delete_single_pin_rlc st =
            Inr (map fst (filter single_pin_rlc (fst (components st))), st3)
     \<and> cmp st3 = filter (\<lambda>kv. kv \<notin> set (filter single_pin_rlc (fst (components st))))
                    (fst (components st))
     \<and> layout st3 = fold delete_from_layout
                    (map fst (filter single_pin_rlc (fst (components st)))) (layout st)
     \<and> messages st3 = messages st
          @ map (\<lambda>k. ''Component '' @ k @ '' deleted'')
              (map fst (filter single_pin_rlc (fst (components st))))"
proof -
  obtain items st1 where c: "components st = (items, st1)" by (cases "components st")
  have cmp1: "cmp st1 = items" using components_cmp [of st] c by simp
  have lay1: "layout st1 = layout st" using components_layout [of st] c by simp
  have msg1: "messages st1 = messages st" using components_messages [of st] c by simp
  have d: "distinct (map fst items)" using components_distinct [OF assms] c by simp
  let ?del = "map fst (filter single_pin_rlc items)"
  let ?st2 = "st1\<lparr>layout := fold delete_from_layout ?del (layout st),
                    messages := messages st @ map (\<lambda>k. ''Component '' @ k @ '' deleted'') ?del\<rparr>"
  have l1: "delete_rlc_loop items st1 [] = (?del, ?st2)"
    using delete_rlc_loop_result [of items st1 "[]"] by (simp add: lay1 msg1)
  have dd: "distinct ?del" using d by (simp add: distinct_map_filter)
  have sub: "set ?del \<subseteq> fst ` set (cmp ?st2)" by (auto simp: cmp1)
  let ?st3 = "?st2\<lparr>cmp := filter (\<lambda>kv. fst kv \<notin> set ?del) (cmp ?st2)\<rparr>"
  have l2: "del_components_loop ?del ?st2 = Inr ?st3"
    using del_components_loop_result [OF dd sub] .
  have r: "delete_single_pin_rlc st = Inr (?del, ?st3)"
    by (simp only: delete_single_pin_rlc_def c l1 l2 and_then_def Let_def prod.case sum.case)
  have f: "cmp ?st3 = filter (\<lambda>kv. kv \<notin> set (filter single_pin_rlc items)) items"
    using filter_keys_entries [OF d, of single_pin_rlc] by (simp add: cmp1)
  show ?thesis
    apply (rule exI [of _ ?st3])
    using r f by (simp add: c)
qed

subsection \<open>The example layout\<close>

lemmas example_defs = example_layout_def example_empty_def example_cached_def example_stale_def


theorem classification_views_witness:
  "distinct (map fst (cmp example_cached))
   \<and> fst (resistors example_cached) = [(''R1'', \<lparr>RefDes = ''R1'', type = ''Resistor'', numpins = 1\<rparr>)]
   \<and> fst (ICs example_cached) = [(''U1'', \<lparr>RefDes = ''U1'', type = ''IC'', numpins = 8\<rparr>)]
   \<and> fst (IOs example_cached) = []
   \<and> fst (resistors (snd (resistors example_cached))) = fst (resistors example_cached)"
proof -
  have d: "distinct (map fst (cmp example_cached))" by (simp add: example_defs)
  have c: "fst (components example_cached) = cmp example_cached"
    by (simp add: components_def example_defs)
  have v: "cmp example_cached = map (\<lambda>c. (RefDes c, c)) example_layout"
    by (simp add: example_defs)
  from classification_views [OF d] show ?thesis
    unfolding c v by (simp add: d [unfolded v] example_layout_def)
qed

theorem delete_single_pin_rlc_exact_witness:
  "distinct (map fst (cmp example_cached))
   \<and> (\<exists>st3. delete_single_pin_rlc example_cached = Inr ([''R1'', ''L1''], st3)
         \<and> cmp st3 = [(''U1'', \<lparr>RefDes = ''U1'', type = ''IC'', numpins = 8\<rparr>),
                      (''C1'', \<lparr>RefDes = ''C1'', type = ''Capacitor'', numpins = 2\<rparr>)]
         \<and> layout st3 = [\<lparr>RefDes = ''U1'', type = ''IC'', numpins = 8\<rparr>,
                         \<lparr>RefDes = ''C1'', type = ''Capacitor'', numpins = 2\<rparr>])
   \<and> (\<exists>st3. delete_single_pin_rlc example_stale = Inr ([''R9''], st3)
         \<and> cmp st3 = [] \<and> layout st3 = example_layout)"
proof -
  have d: "distinct (map fst (cmp example_cached))" by (simp add: example_defs)
  have c: "fst (components example_cached) = map (\<lambda>c. (RefDes c, c)) example_layout"
    by (simp add: components_def example_defs)
  have l: "layout example_cached = example_layout" by (simp add: example_defs)
  have f: "filter single_pin_rlc (map (\<lambda>c. (RefDes c, c)) example_layout) =
      [(''R1'', \<lparr>RefDes = ''R1'', type = ''Resistor'', numpins = 1\<rparr>),
       (''L1'', \<lparr>RefDes = ''L1'', type = ''Inductor'', numpins = 0\<rparr>)]"
    by (simp add: example_layout_def single_pin_rlc_def)
  have 1: "\<exists>st3. delete_single_pin_rlc example_cached = Inr ([''R1'', ''L1''], st3)
         \<and> cmp st3 = [(''U1'', \<lparr>RefDes = ''U1'', type = ''IC'', numpins = 8\<rparr>),
                      (''C1'', \<lparr>RefDes = ''C1'', type = ''Capacitor'', numpins = 2\<rparr>)]
         \<and> layout st3 = [\<lparr>RefDes = ''U1'', type = ''IC'', numpins = 8\<rparr>,
                         \<lparr>RefDes = ''C1'', type = ''Capacitor'', numpins = 2\<rparr>]"
    using delete_single_pin_rlc_exact [OF d] unfolding c l f
    by (auto simp: example_layout_def delete_from_layout_def FindByName_def)
  have ds: "distinct (map fst (cmp example_stale))" by (simp add: example_defs)
  have cs: "fst (components example_stale) =
      [(''R9'', \<lparr>RefDes = ''R9'', type = ''Resistor'', numpins = 1\<rparr>)]"
    by (simp add: components_def example_defs)
  have ls: "layout example_stale = example_layout" by (simp add: example_defs)
  have fs: "filter single_pin_rlc [(''R9'', \<lparr>RefDes = ''R9'', type = ''Resistor'', numpins = 1\<rparr>)] =
      [(''R9'', \<lparr>RefDes = ''R9'', type = ''Resistor'', numpins = 1\<rparr>)]"
    by (simp add: single_pin_rlc_def)
  have 2: "\<exists>st3. delete_single_pin_rlc example_stale = Inr ([''R9''], st3)
         \<and> cmp st3 = [] \<and> layout st3 = example_layout"
    using delete_single_pin_rlc_exact [OF ds] unfolding cs ls fs
    by (auto simp: example_layout_def delete_from_layout_def FindByName_def)
  from d 1 2 show ?thesis by blast
qed

section \<open>\<open>update_rlc_from_bom\<close> on two files\<close>

lemma split_header:
  "py_split '';'' ''Pos / Place;Prod name;Func des\<newline>'' =
     Inr [''Pos / Place'', ''Prod name'', ''Func des\<newline>'']"
  by (simp add: py_split_def)

lemma split_data:
  "py_split '';'' ''R1;Resistor;10 Ohm\<newline>'' = Inr [''R1'', ''Resistor'', ''10 Ohm\<newline>'']"
  by (simp add: py_split_def)

lemma strip_fields:
  "py_strip ''Pos / Place'' = ''Pos / Place''" "py_strip ''Prod name'' = ''Prod name''"
  "py_strip ''Func des\<newline>'' = ''Func des''"
  "py_strip ''R1'' = ''R1''" "py_strip ''Resistor'' = ''Resistor''"
  "py_strip ''10 Ohm\<newline>'' = ''10 Ohm''"
  by (simp_all add: py_strip_def is_space_def)

lemma header_line:
  "bom_line '';'' ''Func des'' ''Prod name'' ''Pos / Place'' ''Pos / Place;Prod name;Func des\<newline>''
     \<lparr>found = False, refdescolumn = None, comptypecolumn = None, valuecolumn = None, calls = []\<rparr> =
   Inr \<lparr>found = False, refdescolumn = Some 0, comptypecolumn = Some 1, valuecolumn = Some 2,
        calls = []\<rparr>"
  unfolding bom_line_def split_header
  by (simp add: strip_fields and_then_def Let_def)

lemma data_line_first_column:
  "bom_line '';'' ''Func des'' ''Prod name'' ''Pos / Place'' ''R1;Resistor;10 Ohm\<newline>''
     \<lparr>found = False, refdescolumn = Some 0, comptypecolumn = Some 1, valuecolumn = Some 2,
      calls = []\<rparr> =
   Inr \<lparr>found = False, refdescolumn = Some 0, comptypecolumn = Some 1, valuecolumn = Some 2,
        calls = []\<rparr>"
  unfolding bom_line_def split_data
  by (simp add: strip_fields and_then_def Let_def)

text \<open>
  Claim C5 at the failing input: a BOM file whose header line has the reference
  designator header in its first column, followed by a data line. The column index is
  \<open>0\<close>, the truth test \<open>elif refdescolumn:\<close> fails on every data line, nothing is
  assigned and \<open>False\<close> is returned. With the same fields in another order (lemma
  \<open>update_rlc_from_bom_second_column\<close>) the function returns \<open>True\<close> and assigns the
  resistance.
\<close>

theorem update_rlc_from_bom_first_column:
  "update_rlc_from_bom
     [''Pos / Place;Prod name;Func des\<newline>'', ''R1;Resistor;10 Ohm\<newline>'']
     '';'' ''Func des'' ''Prod name'' ''Pos / Place'' = Inr (False, [])"
  unfolding update_rlc_from_bom_def bom_loop.simps and_then_def header_line sum.case
    data_line_first_column
  by simp

lemma split_header_second:
  "py_split '';'' ''Prod name;Pos / Place;Func des\<newline>'' =
     Inr [''Prod name'', ''Pos / Place'', ''Func des\<newline>'']"
  by (simp add: py_split_def)

lemma split_data_second:
  "py_split '';'' ''Resistor;R1;10 Ohm\<newline>'' = Inr [''Resistor'', ''R1'', ''10 Ohm\<newline>'']"
  by (simp add: py_split_def)

lemma header_line_second:
  "bom_line '';'' ''Func des'' ''Prod name'' ''Pos / Place'' ''Prod name;Pos / Place;Func des\<newline>''
     \<lparr>found = False, refdescolumn = None, comptypecolumn = None, valuecolumn = None, calls = []\<rparr> =
   Inr \<lparr>found = False, refdescolumn = Some 1, comptypecolumn = Some 0, valuecolumn = Some 2,
        calls = []\<rparr>"
  unfolding bom_line_def split_header_second
  by (simp add: strip_fields and_then_def Let_def)

lemma lower_Resistor: "py_lower ''Resistor'' = ''resistor''"
  by code_simp

lemma resistor_type: "py_contains ''resistor'' (py_lower ''Resistor'')"
  by (simp add: lower_Resistor)

lemma split_tokens:
  "py_split '' '' ''R1'' = Inr [''R1'']" "py_split '' '' ''10 Ohm'' = Inr [''10'', ''Ohm'']"
  by (simp_all add: py_split_def)

lemma data_line_second_column:
  "bom_line '';'' ''Func des'' ''Prod name'' ''Pos / Place'' ''Resistor;R1;10 Ohm\<newline>''
     \<lparr>found = False, refdescolumn = Some 1, comptypecolumn = Some 0, valuecolumn = Some 2,
      calls = []\<rparr> =
   Inr \<lparr>found = True, refdescolumn = Some 1, comptypecolumn = Some 0, valuecolumn = Some 2,
        calls = [\<lparr>componentname = ''R1'', res_value = Some ''10'', ind_value = None,
                  cap_value = None\<rparr>]\<rparr>"
  unfolding bom_line_def split_data_second
  by (simp add: strip_fields and_then_def Let_def py_index_opt_def py_index_def split_tokens
      resistor_type)

text \<open>
  With the reference designator header in the second column, the same data are read:
  \<open>True\<close> is returned and the first token of the value field, \<open>10\<close>, is assigned as
  the resistance of \<open>R1\<close>.
\<close>

lemma update_rlc_from_bom_second_column:
  "update_rlc_from_bom
     [''Prod name;Pos / Place;Func des\<newline>'', ''Resistor;R1;10 Ohm\<newline>'']
     '';'' ''Func des'' ''Prod name'' ''Pos / Place'' =
   Inr (True, [\<lparr>componentname = ''R1'', res_value = Some ''10'', ind_value = None,
                 cap_value = None\<rparr>])"
  unfolding update_rlc_from_bom_def bom_loop.simps and_then_def header_line_second sum.case
    data_line_second_column
  by simp

section \<open>Properties of \<open>resistor_value_parser\<close>\<close>

lemma py_replace_from_skip:
  "c \<notin> set n \<Longrightarrow> py_replace_from (c # old) new (n @ t) = n @ py_replace_from (c # old) new t"
  by (induction n) auto

lemma py_replace_skip:
  "c \<notin> set n \<Longrightarrow> py_replace (c # old) new (n @ t) = n @ py_replace (c # old) new t"
  by (simp add: py_replace_def py_replace_from_skip)

lemma not_literal_char:
  "x \<in> set '' mOokMeE+-'' \<Longrightarrow> \<not> (is_digit x \<or> x = CHR ''.'')"
  by (auto simp: is_digit_def)

lemma literal_not_space: "is_digit x \<or> x = CHR ''.'' \<Longrightarrow> \<not> is_space x"
  by (auto simp: is_digit_def is_space_def)

lemma literal_chars_absent:
  assumes "\<forall>c \<in> set n. is_digit c \<or> c = CHR ''.''" and "x \<in> set '' mOokMeE+-''"
  shows "x \<notin> set n"
  using assms not_literal_char [OF assms(2)] by blast

lemma rewrite_suffix:
  assumes "\<forall>c \<in> set n. is_digit c \<or> c = CHR ''.''"
  shows "py_replace ''M'' ''e6'' (py_replace ''m'' ''e-3'' (py_replace ''k'' ''e3''
           (py_replace ''ohm'' '''' (py_replace ''Ohm'' '''' (py_replace ''meg'' ''m''
             (py_replace '' '' '''' (n @ t))))))) =
         n @ py_replace ''M'' ''e6'' (py_replace ''m'' ''e-3'' (py_replace ''k'' ''e3''
           (py_replace ''ohm'' '''' (py_replace ''Ohm'' '''' (py_replace ''meg'' ''m''
             (py_replace '' '' '''' t))))))"
proof -
  have c: "CHR '' '' \<notin> set n" "CHR ''m'' \<notin> set n" "CHR ''O'' \<notin> set n" "CHR ''o'' \<notin> set n"
    "CHR ''k'' \<notin> set n" "CHR ''M'' \<notin> set n"
    by (rule literal_chars_absent [OF assms], simp)+
  have 1: "py_replace '' '' '''' (n @ t) = n @ py_replace '' '' '''' t"
    using c(1) by (rule py_replace_skip)
  have 2: "\<And>u. py_replace ''meg'' ''m'' (n @ u) = n @ py_replace ''meg'' ''m'' u"
    using c(2) by (rule py_replace_skip)
  have 3: "\<And>u. py_replace ''Ohm'' '''' (n @ u) = n @ py_replace ''Ohm'' '''' u"
    using c(3) by (rule py_replace_skip)
  have 4: "\<And>u. py_replace ''ohm'' '''' (n @ u) = n @ py_replace ''ohm'' '''' u"
    using c(4) by (rule py_replace_skip)
  have 5: "\<And>u. py_replace ''k'' ''e3'' (n @ u) = n @ py_replace ''k'' ''e3'' u"
    using c(5) by (rule py_replace_skip)
  have 6: "\<And>u. py_replace ''m'' ''e-3'' (n @ u) = n @ py_replace ''m'' ''e-3'' u"
    using c(2) by (rule py_replace_skip)
  have 7: "\<And>u. py_replace ''M'' ''e6'' (n @ u) = n @ py_replace ''M'' ''e6'' u"
    using c(6) by (rule py_replace_skip)
  show ?thesis by (simp only: 1 2 3 4 5 6 7)
qed

lemma parse_mantissa_chars:
  assumes "parse_mantissa n = Some q"
  shows "n \<noteq> []" and "\<forall>c \<in> set n. is_digit c \<or> c = CHR ''.''"
proof -
  show "n \<noteq> []"
    using assms
    by (auto simp: parse_mantissa_def split_at_first_def parse_digits_def
        split: list.splits if_splits)
  show "\<forall>c \<in> set n. is_digit c \<or> c = CHR ''.''"
  proof (cases "dropWhile (\<lambda>c. c \<noteq> CHR ''.'') n")
    case Nil
    with assms show ?thesis
      by (auto simp: parse_mantissa_def split_at_first_def parse_digits_def list_all_iff
          split: if_splits)
  next
    case (Cons c rest)
    then have n: "n = takeWhile (\<lambda>c. c \<noteq> CHR ''.'') n @ c # rest" and c: "c = CHR ''.''"
      by (auto simp: dropWhile_eq_Cons_conv)
    from assms Cons have
      "list_all is_digit (takeWhile (\<lambda>c. c \<noteq> CHR ''.'') n)" "list_all is_digit rest"
      by (auto simp: parse_mantissa_def split_at_first_def split: if_splits)
    then have "\<forall>x \<in> set (takeWhile (\<lambda>c. c \<noteq> CHR ''.'') n @ c # rest). is_digit x \<or> x = CHR ''.''"
      using c by (auto simp: list_all_iff)
    with n show ?thesis by metis
  qed
qed

lemma rewritten_k:
  "py_replace ''M'' ''e6'' (py_replace ''m'' ''e-3'' (py_replace ''k'' ''e3''
     (py_replace ''ohm'' '''' (py_replace ''Ohm'' '''' (py_replace ''meg'' ''m''
       (py_replace '' '' '''' ''k'')))))) = ''e3''"
  by code_simp

lemma rewritten_M:
  "py_replace ''M'' ''e6'' (py_replace ''m'' ''e-3'' (py_replace ''k'' ''e3''
     (py_replace ''ohm'' '''' (py_replace ''Ohm'' '''' (py_replace ''meg'' ''m''
       (py_replace '' '' '''' ''M'')))))) = ''e6''"
  by code_simp

lemma rewritten_m:
  "py_replace ''M'' ''e6'' (py_replace ''m'' ''e-3'' (py_replace ''k'' ''e3''
     (py_replace ''ohm'' '''' (py_replace ''Ohm'' '''' (py_replace ''meg'' ''m''
       (py_replace '' '' '''' ''m'')))))) = ''e-3''"
  by code_simp

lemma rewritten_meg:
  "py_replace ''M'' ''e6'' (py_replace ''m'' ''e-3'' (py_replace ''k'' ''e3''
     (py_replace ''ohm'' '''' (py_replace ''Ohm'' '''' (py_replace ''meg'' ''m''
       (py_replace '' '' '''' ''meg'')))))) = ''e-3''"
  by code_simp

lemmas rewritten_suffixes = rewritten_k rewritten_M rewritten_m rewritten_meg

lemma split_exponent:
  assumes "\<forall>c \<in> set n. is_digit c \<or> c = CHR ''.''"
  shows "split_at_first (\<lambda>c. c = CHR ''e'' \<or> c = CHR ''E'') (n @ CHR ''e'' # ex) = (n, Some ex)"
proof -
  have "CHR ''e'' \<notin> set n" "CHR ''E'' \<notin> set n"
    by (rule literal_chars_absent [OF assms], simp)+
  then have a: "\<forall>c \<in> set n. \<not> (c = CHR ''e'' \<or> c = CHR ''E'')"
    by blast
  then have "dropWhile (\<lambda>c. \<not> (c = CHR ''e'' \<or> c = CHR ''E'')) (n @ CHR ''e'' # ex) = CHR ''e'' # ex"
    and "takeWhile (\<lambda>c. \<not> (c = CHR ''e'' \<or> c = CHR ''E'')) (n @ CHR ''e'' # ex) = n"
    by (simp_all add: dropWhile_append2 takeWhile_append2)
  then show ?thesis by (simp add: split_at_first_def)
qed

lemma literal_no_underscore:
  assumes "\<forall>c \<in> set n. is_digit c \<or> c = CHR ''.''"
  shows "CHR ''_'' \<notin> set n"
proof
  assume "CHR ''_'' \<in> set n"
  with assms have "is_digit (CHR ''_'') \<or> CHR ''_'' = CHR ''.''" by blast
  then show False by (simp add: is_digit_def)
qed

lemma literal_not_special:
  assumes "is_digit c \<or> c = CHR ''.''"
  shows "py_lower (c # cs) \<noteq> ''inf''" "py_lower (c # cs) \<noteq> ''infinity''"
    "py_lower (c # cs) \<noteq> ''nan''"
  using assms by (auto simp: py_lower_def is_digit_def)

lemma parse_decimal_exponent:
  assumes "parse_mantissa n = Some q" and "parse_exponent ex = Some k"
  shows "parse_decimal (n @ CHR ''e'' # ex) = Some (q * pow10 k)"
  using assms split_exponent [OF parse_mantissa_chars(2) [OF assms(1)], of ex]
  by (simp add: parse_decimal_def)

lemma py_float_exponent:
  assumes "parse_mantissa n = Some q" and "parse_exponent ex = Some k" and "ex \<noteq> []"
    and "\<not> is_space (last ex)" and "CHR ''_'' \<notin> set ex"
  shows "py_float ops (n @ CHR ''e'' # ex) = Inr (nearest ops False (q * pow10 k))"
proof -
  note ch = parse_mantissa_chars [OF assms(1)]
  obtain c cs where n: "n = c # cs" using ch(1) by (cases n) auto
  have lit: "is_digit c \<or> c = CHR ''.''" using ch(2) by (simp add: n)
  have c: "\<not> is_space c" "c \<noteq> CHR ''-''" "c \<noteq> CHR ''+''"
    using lit literal_not_space [OF lit] not_literal_char [of c] by auto
  have "py_strip (n @ CHR ''e'' # ex) = n @ CHR ''e'' # ex"
    using c(1) assms(3,4) by (intro py_strip_id) (simp_all add: n)
  then have s: "py_strip (c # cs @ CHR ''e'' # ex) = c # cs @ CHR ''e'' # ex" by (simp add: n)
  have "CHR ''_'' \<notin> set (n @ CHR ''e'' # ex)"
    using literal_no_underscore [OF ch(2)] assms(5) by simp
  then have "degroup (n @ CHR ''e'' # ex) = Some (n @ CHR ''e'' # ex)" by (rule degroup_none)
  then have g: "degroup (c # cs @ CHR ''e'' # ex) = Some (c # cs @ CHR ''e'' # ex)"
    by (simp add: n)
  have p: "parse_decimal (c # cs @ CHR ''e'' # ex) = Some (q * pow10 k)"
    using parse_decimal_exponent [OF assms(1,2)] by (simp add: n)
  note sp = literal_not_special [OF lit, of "cs @ CHR ''e'' # ex"]
  show ?thesis
    unfolding py_float_def n
    using c(2,3) sp by (simp add: s g p)
qed

lemma exponents:
  "parse_exponent ''3'' = Some 3" "parse_exponent ''6'' = Some 6" "parse_exponent ''-3'' = Some (- 3)"
  by (simp_all add: parse_exponent_def parse_digits_def digits_value_def is_digit_def digit_val_def)

lemma pow10_values: "pow10 3 = 1000" "pow10 6 = 1000000" "pow10 (- 3) = 1 / 1000"
  by (simp_all add: pow10_def)

text \<open>
  Claim C6, as amended. On a string, \<open>resistor_value_parser\<close> removes the spaces,
  rewrites every \<open>meg\<close> to \<open>m\<close>, removes \<open>Ohm\<close> and \<open>ohm\<close>, then rewrites every \<open>k\<close>
  to \<open>e3\<close>, every \<open>m\<close> to \<open>e-3\<close> and every \<open>M\<close> to \<open>e6\<close>, in that order, and converts
  the result with \<open>float\<close>. So for a decimal literal \<open>n\<close> (digits with at most one point)
  denoting the number \<open>q\<close>, the parser returns on \<open>n\<close> followed by \<open>k\<close> what \<open>float\<close>
  returns on \<open>n\<close> followed by \<open>e3\<close>, the double nearest to \<open>q * 10^3\<close>; on \<open>M\<close>, on \<open>e6\<close>,
  the double nearest to \<open>q * 10^6\<close>; and on \<open>m\<close> as on \<open>meg\<close>, on \<open>e-3\<close>, the double
  nearest to \<open>q * 10^-3\<close>. This holds for every type of doubles and every rounding.
\<close>

theorem resistor_value_parser_suffixes:
  assumes "parse_mantissa n = Some q"
  shows "resistor_value_parser ops (PyStr (n @ ''k'')) = py_float ops (n @ ''e3'')
       \<and> resistor_value_parser ops (PyStr (n @ ''M'')) = py_float ops (n @ ''e6'')
       \<and> resistor_value_parser ops (PyStr (n @ ''m'')) = py_float ops (n @ ''e-3'')
       \<and> resistor_value_parser ops (PyStr (n @ ''meg'')) = py_float ops (n @ ''e-3'')
       \<and> py_float ops (n @ ''e3'') = Inr (nearest ops False (q * 1000))
       \<and> py_float ops (n @ ''e6'') = Inr (nearest ops False (q * 1000000))
       \<and> py_float ops (n @ ''e-3'') = Inr (nearest ops False (q / 1000))
       \<and> (\<forall>s. resistor_value_parser ops (PyStr s) =
             py_float ops (py_replace ''M'' ''e6'' (py_replace ''m'' ''e-3'' (py_replace ''k'' ''e3''
               (py_replace ''ohm'' '''' (py_replace ''Ohm'' '''' (py_replace ''meg'' ''m''
                 (py_replace '' '' '''' s))))))))"
proof -
  note ch = parse_mantissa_chars [OF assms]
  have sp: "\<not> is_space (last ''3'')" "\<not> is_space (last ''6'')" "\<not> is_space (last ''-3'')"
    by (simp_all add: is_space_def)
  have f3: "py_float ops (n @ ''e3'') = Inr (nearest ops False (q * 1000))"
    using py_float_exponent [OF assms exponents(1) _ sp(1), of ops] by (simp add: pow10_values)
  have f6: "py_float ops (n @ ''e6'') = Inr (nearest ops False (q * 1000000))"
    using py_float_exponent [OF assms exponents(2) _ sp(2), of ops] by (simp add: pow10_values)
  have fm: "py_float ops (n @ ''e-3'') = Inr (nearest ops False (q / 1000))"
    using py_float_exponent [OF assms exponents(3) _ sp(3), of ops] by (simp add: pow10_values)
  have p: "\<And>s. resistor_value_parser ops (PyStr s) =
             py_float ops (py_replace ''M'' ''e6'' (py_replace ''m'' ''e-3'' (py_replace ''k'' ''e3''
               (py_replace ''ohm'' '''' (py_replace ''Ohm'' '''' (py_replace ''meg'' ''m''
                 (py_replace '' '' '''' s)))))))"
    by (simp add: resistor_value_parser_def Let_def)
  have k: "resistor_value_parser ops (PyStr (n @ ''k'')) = py_float ops (n @ ''e3'')"
    unfolding p rewrite_suffix [OF ch(2)] rewritten_suffixes by (rule refl)
  have M: "resistor_value_parser ops (PyStr (n @ ''M'')) = py_float ops (n @ ''e6'')"
    unfolding p rewrite_suffix [OF ch(2)] rewritten_suffixes by (rule refl)
  have m: "resistor_value_parser ops (PyStr (n @ ''m'')) = py_float ops (n @ ''e-3'')"
    unfolding p rewrite_suffix [OF ch(2)] rewritten_suffixes by (rule refl)
  have meg: "resistor_value_parser ops (PyStr (n @ ''meg'')) = py_float ops (n @ ''e-3'')"
    unfolding p rewrite_suffix [OF ch(2)] rewritten_suffixes by (rule refl)
  from k M m meg f3 f6 fm p show ?thesis by blast
qed

lemma mantissa_4_7: "parse_mantissa ''4.7'' = Some (47 / 10)"
  by (simp add: parse_mantissa_def split_at_first_def is_digit_def digits_value_def digit_val_def)

theorem resistor_value_parser_suffixes_witness:
  "resistor_value_parser named_doubles (PyStr ''4.7k'') = Inr (Nearest False 4700)
   \<and> resistor_value_parser named_doubles (PyStr ''4.7M'') = Inr (Nearest False 4700000)
   \<and> resistor_value_parser named_doubles (PyStr ''4.7m'') = Inr (Nearest False (47 / 10000))
   \<and> resistor_value_parser named_doubles (PyStr ''4.7meg'') = Inr (Nearest False (47 / 10000))"
proof -
  from resistor_value_parser_suffixes [OF mantissa_4_7, of named_doubles]
  have "resistor_value_parser named_doubles (PyStr (''4.7'' @ ''k'')) =
          Inr (nearest named_doubles False (47 / 10 * 1000))
   \<and> resistor_value_parser named_doubles (PyStr (''4.7'' @ ''M'')) =
          Inr (nearest named_doubles False (47 / 10 * 1000000))
   \<and> resistor_value_parser named_doubles (PyStr (''4.7'' @ ''m'')) =
          Inr (nearest named_doubles False (47 / 10 / 1000))
   \<and> resistor_value_parser named_doubles (PyStr (''4.7'' @ ''meg'')) =
          Inr (nearest named_doubles False (47 / 10 / 1000))"
    by metis
  then show ?thesis by (simp add: named_doubles_def)
qed

lemma rewrite_code:
  "py_replace ''M'' ''e6'' (py_replace ''m'' ''e-3'' (py_replace ''k'' ''e3''
     (py_replace ''ohm'' '''' (py_replace ''Ohm'' '''' (py_replace ''meg'' ''m''
       (py_replace '' '' '''' ''1meOhmg'')))))) = ''1e-3eg''"
  by code_simp

lemma rewrite_spec:
  "py_replace ''M'' ''e6'' (py_replace ''m'' ''e-3'' (py_replace ''k'' ''e3''
     (py_replace ''meg'' ''m'' (py_replace ''ohm'' '''' (py_replace ''Ohm'' ''''
       (py_replace '' '' '''' ''1meOhmg'')))))) = ''1e-3''"
  by code_simp

lemma py_float_malformed: "py_float ops ''1e-3eg'' = Inl ValueError"
  by (simp add: py_float_def py_strip_def is_space_def py_lower_def degroup_def is_digit_def
      parse_decimal_def split_at_first_def parse_mantissa_def parse_exponent_def
      parse_digits_def digits_value_def digit_val_def)

lemma mantissa_1: "parse_mantissa ''1'' = Some 1"
  by (simp add: parse_mantissa_def split_at_first_def parse_digits_def is_digit_def
      digits_value_def digit_val_def)

lemma py_float_milli: "py_float ops ''1e-3'' = Inr (nearest ops False (1 / 1000))"
  using py_float_exponent [OF mantissa_1 exponents(3), of ops]
  by (simp add: pow10_values is_space_def)

text \<open>
  Claim C6 as stated fails in the order of its steps. On \<open>1meOhmg\<close> the code looks for
  \<open>meg\<close> before \<open>Ohm\<close> is removed, finds none, and ends converting \<open>1e-3eg\<close>, which
  raises ValueError; removing \<open>Ohm\<close> first, as the claim words it, converts \<open>1e-3\<close>.
\<close>

theorem resistor_value_parser_counterexample:
  "resistor_value_parser named_doubles (PyStr ''1meOhmg'') = Inl ValueError
   \<and> resistor_value_parser_spec named_doubles (PyStr ''1meOhmg'') = Inr (Nearest False (1 / 1000))"
  unfolding resistor_value_parser_def resistor_value_parser_spec_def Let_def py_value.case
    rewrite_code rewrite_spec py_float_malformed py_float_milli
  by (simp add: named_doubles_def)

end
